theory Spec2Isabelle
  imports Complex_Main "HOL-Library.Char_ord" "HOL-Library.List_Lexorder" "HOL-Library.AList"
begin

section \<open>Python values and exceptions\<close>

text \<open>
  The event payloads (\<open>data\<close>, \<open>metadata\<close>) are open Python objects. The values the
  program handles are modelled by one datatype: \<open>None\<close>, booleans, integers, floats
  (idealised as reals: NaN and the infinities are not represented), strings, lists,
  tuples, dictionaries with string keys (the type hints say \<open>Dict[str, Any]\<close>; the
  pairs are kept in insertion order) and any other object, which the JSON encoder
  cannot serialise.
\<close>

datatype pyval =
    PNone
  | PBool bool
  | PInt int
  | PFloat real
  | PStr string
  | PList "pyval list"
  | PTuple "pyval list"
  | PDict "(string \<times> pyval) list"
  | PObject string

text \<open>
  Exceptions derived from \<open>Exception\<close>, the class every handler of the source names.
  \<open>OtherError\<close> stands for whatever a registered callback raises.
\<close>

datatype py_error =
    TypeError
  | ValueError
  | OverflowError
  | OperationalError
  | IntegrityError
  | OtherError string

text \<open>Truth value testing, as \<open>x or y\<close> and \<open>if x\<close> use it.\<close>

fun truthy :: "pyval \<Rightarrow> bool" where
  "truthy PNone = False"
| "truthy (PBool b) = b"
| "truthy (PInt i) = (i \<noteq> 0)"
| "truthy (PFloat r) = (r \<noteq> 0)"
| "truthy (PStr s) = (s \<noteq> [])"
| "truthy (PList xs) = (xs \<noteq> [])"
| "truthy (PTuple xs) = (xs \<noteq> [])"
| "truthy (PDict kvs) = (kvs \<noteq> [])"
| "truthy (PObject n) = True"

definition py_or :: "pyval \<Rightarrow> pyval \<Rightarrow> pyval" where
  "py_or x y = (if truthy x then x else y)"

text \<open>A Python dictionary holds each key once: the class invariant of \<open>dict\<close>.\<close>

fun wf_pyval :: "pyval \<Rightarrow> bool" where
  "wf_pyval (PList xs) = list_all wf_pyval xs"
| "wf_pyval (PTuple xs) = list_all wf_pyval xs"
| "wf_pyval (PDict kvs) = (distinct (map fst kvs) \<and> list_all (\<lambda>kv. wf_pyval (snd kv)) kvs)"
| "wf_pyval v = True"

section \<open>The json module\<close>

text \<open>
  \<open>json.dumps\<close> turns a Python object into a JSON document and \<open>json.loads\<close> turns a
  document back into an object. A document is modelled by its syntax tree; the
  character syntax between the two calls is private to the library. The conversions
  are the tables of the library's documentation: tuples and lists both become arrays,
  arrays become lists, an object outside the table raises \<open>TypeError\<close>, and a repeated
  name in a JSON object keeps its first position and its last value.
\<close>

datatype json =
    JNull
  | JBool bool
  | JInt int
  | JReal real
  | JString string
  | JArray "json list"
  | JObject "(string \<times> json) list"

fun serializable :: "pyval \<Rightarrow> bool" where
  "serializable (PList xs) = list_all serializable xs"
| "serializable (PTuple xs) = list_all serializable xs"
| "serializable (PDict kvs) = list_all (\<lambda>kv. serializable (snd kv)) kvs"
| "serializable (PObject n) = False"
| "serializable v = True"

fun to_json :: "pyval \<Rightarrow> json" where
  "to_json PNone = JNull"
| "to_json (PBool b) = JBool b"
| "to_json (PInt i) = JInt i"
| "to_json (PFloat r) = JReal r"
| "to_json (PStr s) = JString s"
| "to_json (PList xs) = JArray (map to_json xs)"
| "to_json (PTuple xs) = JArray (map to_json xs)"
| "to_json (PDict kvs) = JObject (map (\<lambda>kv. (fst kv, to_json (snd kv))) kvs)"
| "to_json (PObject n) = JNull"

definition json_dumps :: "pyval \<Rightarrow> py_error + json" where
  "json_dumps v = (if serializable v then Inr (to_json v) else Inl TypeError)"

text \<open>Building a \<open>dict\<close> from pairs read left to right: \<open>d[k] = v\<close> for each.\<close>

definition dict_of_pairs :: "(string \<times> pyval) list \<Rightarrow> (string \<times> pyval) list" where
  "dict_of_pairs kvs = foldl (\<lambda>d kv. AList.update (fst kv) (snd kv) d) [] kvs"

fun json_loads :: "json \<Rightarrow> pyval" where
  "json_loads JNull = PNone"
| "json_loads (JBool b) = PBool b"
| "json_loads (JInt i) = PInt i"
| "json_loads (JReal r) = PFloat r"
| "json_loads (JString s) = PStr s"
| "json_loads (JArray xs) = PList (map json_loads xs)"
| "json_loads (JObject kvs) = PDict (dict_of_pairs (map (\<lambda>kv. (fst kv, json_loads (snd kv))) kvs))"

section \<open>Naive datetimes and their ISO text\<close>

text \<open>
  \<open>datetime.now()\<close> returns a naive datetime: the seven calendar fields, no time zone.
  Python compares two naive datetimes field by field, from the year to the
  microsecond. The class accepts only the field values of \<open>valid_datetime\<close>.
\<close>

record datetime =
  year :: nat
  month :: nat
  day :: nat
  hour :: nat
  minute :: nat
  second :: nat
  microsecond :: nat

definition is_leap :: "nat \<Rightarrow> bool" where
  "is_leap y = (y mod 4 = 0 \<and> (y mod 100 \<noteq> 0 \<or> y mod 400 = 0))"

definition days_in_month :: "nat \<Rightarrow> nat \<Rightarrow> nat" where
  "days_in_month y m =
     (if m = 2 then (if is_leap y then 29 else 28)
      else if m = 4 \<or> m = 6 \<or> m = 9 \<or> m = 11 then 30 else 31)"

definition valid_datetime :: "datetime \<Rightarrow> bool" where
  "valid_datetime d =
     (1 \<le> year d \<and> year d \<le> 9999 \<and> 1 \<le> month d \<and> month d \<le> 12 \<and>
      1 \<le> day d \<and> day d \<le> days_in_month (year d) (month d) \<and>
      hour d < 24 \<and> minute d < 60 \<and> second d < 60 \<and> microsecond d < 1000000)"

definition dt_fields :: "datetime \<Rightarrow> nat list" where
  "dt_fields d = [year d, month d, day d, hour d, minute d, second d, microsecond d]"

definition dt_le :: "datetime \<Rightarrow> datetime \<Rightarrow> bool" where
  "dt_le a b = (dt_fields a \<le> dt_fields b)"

text \<open>
  \<open>isoformat()\<close> prints \<open>YYYY-MM-DDTHH:MM:SS\<close>, followed by \<open>.ffffff\<close> only when the
  microsecond is not zero. \<open>zfill w n\<close> is \<open>'%0wd' % n\<close> for a number of at most
  \<open>w\<close> digits, which every field of a valid datetime is.
\<close>

definition digit_char :: "nat \<Rightarrow> char" where
  "digit_char n = char_of (48 + n)"

fun zfill :: "nat \<Rightarrow> nat \<Rightarrow> string" where
  "zfill 0 n = []"
| "zfill (Suc w) n = zfill w (n div 10) @ [digit_char (n mod 10)]"

definition frac :: "nat \<Rightarrow> string" where
  "frac us = (if us = 0 then [] else ''.'' @ zfill 6 us)"

definition isoformat :: "datetime \<Rightarrow> string" where
  "isoformat d =
     zfill 4 (year d) @ ''-'' @ zfill 2 (month d) @ ''-'' @ zfill 2 (day d) @ ''T'' @
     zfill 2 (hour d) @ '':'' @ zfill 2 (minute d) @ '':'' @ zfill 2 (second d) @
     frac (microsecond d)"

text \<open>
  \<open>datetime.fromisoformat\<close>, on the texts this program stores: the date, one
  separator character, the time to the second and an optional fraction of six
  digits. Any other text, a character that is no digit, and field values outside a
  valid datetime raise \<open>ValueError\<close>.
\<close>

definition is_digit :: "char \<Rightarrow> bool" where
  "is_digit c = (48 \<le> (of_char c :: nat) \<and> (of_char c :: nat) \<le> 57)"

fun parse_nat :: "nat \<Rightarrow> string \<Rightarrow> nat option" where
  "parse_nat acc [] = Some acc"
| "parse_nat acc (c # cs) =
     (if is_digit c then parse_nat (10 * acc + (of_char c - 48)) cs else None)"

definition parse_field :: "string \<Rightarrow> nat option" where
  "parse_field s = (if s = [] then None else parse_nat 0 s)"

definition make_datetime ::
  "nat option \<Rightarrow> nat option \<Rightarrow> nat option \<Rightarrow> nat option \<Rightarrow> nat option \<Rightarrow> nat option \<Rightarrow>
   nat option \<Rightarrow> py_error + datetime" where
  "make_datetime y mo d h mi s us =
     (case (y, mo, d, h, mi, s, us) of
        (Some y', Some mo', Some d', Some h', Some mi', Some s', Some us') \<Rightarrow>
          (let r = \<lparr>year = y', month = mo', day = d', hour = h', minute = mi',
                    second = s', microsecond = us'\<rparr>
           in if valid_datetime r then Inr r else Inl ValueError)
      | _ \<Rightarrow> Inl ValueError)"

definition fromisoformat :: "string \<Rightarrow> py_error + datetime" where
  "fromisoformat t =
     (let n = length t in
      if (n = 19 \<or> n = 26) \<and> t ! 4 = CHR ''-'' \<and> t ! 7 = CHR ''-'' \<and>
         t ! 13 = CHR '':'' \<and> t ! 16 = CHR '':'' \<and> (n = 26 \<longrightarrow> t ! 19 = CHR ''.'')
      then make_datetime
             (parse_field (take 4 t)) (parse_field (take 2 (drop 5 t)))
             (parse_field (take 2 (drop 8 t))) (parse_field (take 2 (drop 11 t)))
             (parse_field (take 2 (drop 14 t))) (parse_field (take 2 (drop 17 t)))
             (if n = 26 then parse_field (drop 20 t) else Some 0)
      else Inl ValueError)"

section \<open>The event model\<close>

datatype EventType =
    WORKFLOW_STARTED
  | WORKFLOW_COMPLETED
  | WORKFLOW_ERROR
  | AGENT_STARTED
  | AGENT_COMPLETED
  | AGENT_ERROR
  | PERFORMANCE_METRIC
  | PROGRESS_UPDATE
  | STATUS_UPDATE

fun EventType_value :: "EventType \<Rightarrow> string" where
  "EventType_value WORKFLOW_STARTED = ''workflow_started''"
| "EventType_value WORKFLOW_COMPLETED = ''workflow_completed''"
| "EventType_value WORKFLOW_ERROR = ''workflow_error''"
| "EventType_value AGENT_STARTED = ''agent_started''"
| "EventType_value AGENT_COMPLETED = ''agent_completed''"
| "EventType_value AGENT_ERROR = ''agent_error''"
| "EventType_value PERFORMANCE_METRIC = ''performance_metric''"
| "EventType_value PROGRESS_UPDATE = ''progress_update''"
| "EventType_value STATUS_UPDATE = ''status_update''"

datatype EventStatus = SUCCESS | ERROR | WARNING | INFO | PROGRESS

fun EventStatus_value :: "EventStatus \<Rightarrow> string" where
  "EventStatus_value SUCCESS = ''success''"
| "EventStatus_value ERROR = ''error''"
| "EventStatus_value WARNING = ''warning''"
| "EventStatus_value INFO = ''info''"
| "EventStatus_value PROGRESS = ''progress''"

text \<open>
  The dataclass \<open>WorkflowEvent\<close>. \<open>duration\<close> is a float or \<open>None\<close>, \<open>error\<close> a string
  or \<open>None\<close>; \<open>metadata\<close> is a Python object, \<open>PNone\<close> for \<open>None\<close>.
\<close>

record workflow_event =
  event_id :: string
  workflow_id :: string
  timestamp :: datetime
  event_type :: string
  agent_name :: string
  status :: string
  message :: string
  data :: pyval
  duration :: "real option"
  error :: "string option"
  metadata :: pyval

definition to_dict :: "workflow_event \<Rightarrow> pyval" where
  "to_dict e = PDict
     [(''event_id'', PStr (event_id e)),
      (''workflow_id'', PStr (workflow_id e)),
      (''timestamp'', PStr (isoformat (timestamp e))),
      (''event_type'', PStr (event_type e)),
      (''agent_name'', PStr (agent_name e)),
      (''status'', PStr (status e)),
      (''message'', PStr (message e)),
      (''data'', data e),
      (''duration'', (case duration e of None \<Rightarrow> PNone | Some x \<Rightarrow> PFloat x)),
      (''error'', (case error e of None \<Rightarrow> PNone | Some x \<Rightarrow> PStr x)),
      (''metadata'', metadata e)]"

section \<open>EventStorage: the table \<open>workflow_events\<close>\<close>

text \<open>
  One row of the table, column by column. The columns \<open>data\<close> and \<open>metadata\<close> hold
  JSON documents; \<open>duration\<close>, \<open>error\<close> and \<open>metadata\<close> may be NULL. The database is the
  list of its rows in insertion order, with a flag that says whether SQLite can be
  reached: when it cannot, \<open>sqlite3\<close> raises \<open>OperationalError\<close> on every call.
\<close>

record row =
  r_event_id :: string
  r_workflow_id :: string
  r_timestamp :: string
  r_event_type :: string
  r_agent_name :: string
  r_status :: string
  r_message :: string
  r_data :: json
  r_duration :: "real option"
  r_error :: "string option"
  r_metadata :: "json option"

record storage =
  db_rows :: "row list"
  db_ok :: bool

text \<open>The tuple of parameters that \<open>store_event\<close> binds to the INSERT statement.\<close>

definition insert_params :: "workflow_event \<Rightarrow> py_error + row" where
  "insert_params e =
     (case json_dumps (data e) of
        Inl x \<Rightarrow> Inl x
      | Inr d \<Rightarrow>
          (case (if truthy (metadata e) then map_sum id Some (json_dumps (metadata e))
                 else Inr None) of
             Inl x \<Rightarrow> Inl x
           | Inr m \<Rightarrow>
               Inr \<lparr>r_event_id = event_id e, r_workflow_id = workflow_id e,
                    r_timestamp = isoformat (timestamp e), r_event_type = event_type e,
                    r_agent_name = agent_name e, r_status = status e,
                    r_message = message e, r_data = d, r_duration = duration e,
                    r_error = error e, r_metadata = m\<rparr>))"

text \<open>
  \<open>store_event\<close>: the INSERT fails with \<open>IntegrityError\<close> when the primary key
  \<open>event_id\<close> is already in the table. Every exception is logged and raised again.
\<close>

definition store_event :: "storage \<Rightarrow> workflow_event \<Rightarrow> py_error + storage" where
  "store_event db e =
     (if \<not> db_ok db then Inl OperationalError
      else case insert_params e of
             Inl x \<Rightarrow> Inl x
           | Inr r \<Rightarrow>
               if r_event_id r \<in> set (map r_event_id (db_rows db)) then Inl IntegrityError
               else Inr (db\<lparr>db_rows := db_rows db @ [r]\<rparr>))"

text \<open>
  The SELECT statements. \<open>ORDER BY timestamp DESC\<close> compares the stored texts byte by
  byte; SQL leaves the order of equal keys open, here it is the reverse of a
  stable ascending sort. \<open>LIMIT n\<close> with a negative \<open>n\<close> puts no bound on the number of
  rows (the SQLite documentation), and \<open>sqlite3\<close> raises \<open>OverflowError\<close> for a Python
  integer that does not fit 64 bits.
\<close>

definition order_by_timestamp_desc :: "row list \<Rightarrow> row list" where
  "order_by_timestamp_desc rs = rev (sort_key r_timestamp rs)"

definition sql_limit :: "int \<Rightarrow> 'a list \<Rightarrow> 'a list" where
  "sql_limit n rs = (if n < 0 then rs else take (nat n) rs)"

definition sqlite_int_ok :: "int \<Rightarrow> bool" where
  "sqlite_int_ok n = (- (2 ^ 63) \<le> n \<and> n < 2 ^ 63)"

definition select_by_workflow :: "storage \<Rightarrow> string \<Rightarrow> int \<Rightarrow> py_error + row list" where
  "select_by_workflow db wid limit =
     (if \<not> db_ok db then Inl OperationalError
      else if \<not> sqlite_int_ok limit then Inl OverflowError
      else Inr (sql_limit limit
                  (order_by_timestamp_desc (filter (\<lambda>r. r_workflow_id r = wid) (db_rows db)))))"

definition select_recent :: "storage \<Rightarrow> int \<Rightarrow> py_error + row list" where
  "select_recent db limit =
     (if \<not> db_ok db then Inl OperationalError
      else if \<not> sqlite_int_ok limit then Inl OverflowError
      else Inr (sql_limit limit (order_by_timestamp_desc (db_rows db))))"

text \<open>The body of the loop over \<open>cursor.fetchall()\<close>: one row back into an event.\<close>

definition event_of_row :: "row \<Rightarrow> py_error + workflow_event" where
  "event_of_row r =
     (case fromisoformat (r_timestamp r) of
        Inl x \<Rightarrow> Inl x
      | Inr ts \<Rightarrow>
          Inr \<lparr>event_id = r_event_id r, workflow_id = r_workflow_id r, timestamp = ts,
               event_type = r_event_type r, agent_name = r_agent_name r,
               status = r_status r, message = r_message r, data = json_loads (r_data r),
               duration = r_duration r, error = r_error r,
               metadata = (case r_metadata r of None \<Rightarrow> PNone | Some j \<Rightarrow> json_loads j)\<rparr>)"

fun events_of_rows :: "row list \<Rightarrow> py_error + workflow_event list" where
  "events_of_rows [] = Inr []"
| "events_of_rows (r # rs) =
     (case event_of_row r of
        Inl x \<Rightarrow> Inl x
      | Inr e \<Rightarrow> (case events_of_rows rs of Inl x \<Rightarrow> Inl x | Inr es \<Rightarrow> Inr (e # es)))"

text \<open>
  The two queries: whatever is raised inside the \<open>try\<close> block is logged and the
  result is the empty list.
\<close>

definition get_events_by_workflow :: "storage \<Rightarrow> string \<Rightarrow> int \<Rightarrow> workflow_event list" where
  "get_events_by_workflow db wid limit =
     (case select_by_workflow db wid limit of
        Inl x \<Rightarrow> []
      | Inr rs \<Rightarrow> (case events_of_rows rs of Inl x \<Rightarrow> [] | Inr es \<Rightarrow> es))"

definition get_recent_events :: "storage \<Rightarrow> int \<Rightarrow> workflow_event list" where
  "get_recent_events db limit =
     (case select_recent db limit of
        Inl x \<Rightarrow> []
      | Inr rs \<Rightarrow> (case events_of_rows rs of Inl x \<Rightarrow> [] | Inr es \<Rightarrow> es))"

section \<open>EventGenerator\<close>

text \<open>
  A registered handler is a callback on the event. What it does is modelled as a
  transformer of the state \<open>'w\<close> the callbacks act on, together with the exception it
  raises, if any; the state a callback leaves behind when it raises is kept.

  The generator holds a reference to a storage object that the manager and the other
  generators share, so the storage is passed to every emission and returned updated.
  The three readings \<open>_create_event\<close> takes from its environment are its \<open>clock\<close>:
  the fresh \<open>uuid4\<close> string, \<open>datetime.now()\<close> and \<open>time.time()\<close>.
\<close>

type_synonym 'w handler = "workflow_event \<Rightarrow> 'w \<Rightarrow> py_error option \<times> 'w"

record 'w event_generator =
  gen_workflow_id :: string
  event_handlers :: "'w handler list"
  start_times :: "string \<rightharpoonup> real"

record clock =
  uuid4 :: string
  datetime_now :: datetime
  time_time :: real

definition EventGenerator :: "string \<Rightarrow> 'w event_generator" where
  "EventGenerator wid = \<lparr>gen_workflow_id = wid, event_handlers = [], start_times = Map.empty\<rparr>"

definition add_handler :: "'w event_generator \<Rightarrow> 'w handler \<Rightarrow> 'w event_generator" where
  "add_handler g h = g\<lparr>event_handlers := event_handlers g @ [h]\<rparr>"

definition create_event ::
  "'w event_generator \<Rightarrow> clock \<Rightarrow> string \<Rightarrow> string \<Rightarrow> string \<Rightarrow> string \<Rightarrow> pyval \<Rightarrow>
   string option \<Rightarrow> pyval \<Rightarrow> workflow_event \<times> 'w event_generator" where
  "create_event g clk etype agent st msg dat err meta =
     (let (dur, g') =
            (case start_times g agent of
               Some t0 \<Rightarrow> (Some (time_time clk - t0), g\<lparr>start_times := (start_times g)(agent := None)\<rparr>)
             | None \<Rightarrow> (None, g))
      in (\<lparr>event_id = uuid4 clk, workflow_id = gen_workflow_id g,
            timestamp = datetime_now clk, event_type = etype, agent_name = agent,
            status = st, message = msg, data = py_or dat (PDict []), duration = dur,
            error = err, metadata = meta\<rparr>, g'))"

text \<open>The loop over the handlers: an exception of a handler is logged and the loop goes on.\<close>

fun notify_handlers :: "'w handler list \<Rightarrow> workflow_event \<Rightarrow> 'w \<Rightarrow> 'w" where
  "notify_handlers [] e w = w"
| "notify_handlers (h # hs) e w =
     (case h e w of
        (None, w') \<Rightarrow> notify_handlers hs e w'
      | (Some x, w') \<Rightarrow> notify_handlers hs e w')"

text \<open>
  \<open>_emit_event\<close>: the body of the outer \<open>try\<close> stores the event, then notifies the
  handlers; \<open>store_event\<close> raises again what it caught, which leaves the body. The
  outer \<open>except Exception\<close> logs and returns.
\<close>

definition emit_event_try ::
  "'w event_generator \<Rightarrow> storage \<Rightarrow> 'w \<Rightarrow> workflow_event \<Rightarrow> py_error + storage \<times> 'w" where
  "emit_event_try g db w e =
     (case store_event db e of
        Inl x \<Rightarrow> Inl x
      | Inr db' \<Rightarrow> Inr (db', notify_handlers (event_handlers g) e w))"

definition emit_event ::
  "'w event_generator \<Rightarrow> storage \<Rightarrow> 'w \<Rightarrow> workflow_event \<Rightarrow> py_error + storage \<times> 'w" where
  "emit_event g db w e =
     (case emit_event_try g db w e of
        Inl x \<Rightarrow> Inr (db, w)
      | Inr r \<Rightarrow> Inr r)"

text \<open>
  The public emitters. Each returns the generator, the storage and the handlers'
  state after the call, or the exception that reaches the caller.
\<close>

definition emit_created ::
  "storage \<Rightarrow> 'w \<Rightarrow> workflow_event \<times> 'w event_generator \<Rightarrow>
   py_error + 'w event_generator \<times> storage \<times> 'w" where
  "emit_created db w eg =
     (case emit_event (snd eg) db w (fst eg) of
        Inl x \<Rightarrow> Inl x
      | Inr (db', w') \<Rightarrow> Inr (snd eg, db', w'))"

definition workflow_started ::
  "'w event_generator \<Rightarrow> storage \<Rightarrow> 'w \<Rightarrow> clock \<Rightarrow> pyval \<Rightarrow>
   py_error + 'w event_generator \<times> storage \<times> 'w" where
  "workflow_started g db w clk dat =
     emit_created db w
       (create_event g clk (EventType_value WORKFLOW_STARTED) ''workflow_orchestrator''
          (EventStatus_value INFO) ''Workflow execution started'' (py_or dat (PDict []))
          None PNone)"

definition workflow_completed ::
  "'w event_generator \<Rightarrow> storage \<Rightarrow> 'w \<Rightarrow> clock \<Rightarrow> pyval \<Rightarrow>
   py_error + 'w event_generator \<times> storage \<times> 'w" where
  "workflow_completed g db w clk dat =
     emit_created db w
       (create_event g clk (EventType_value WORKFLOW_COMPLETED) ''workflow_orchestrator''
          (EventStatus_value SUCCESS) ''Workflow execution completed''
          (py_or dat (PDict [])) None PNone)"

definition workflow_error ::
  "'w event_generator \<Rightarrow> storage \<Rightarrow> 'w \<Rightarrow> clock \<Rightarrow> string \<Rightarrow> pyval \<Rightarrow>
   py_error + 'w event_generator \<times> storage \<times> 'w" where
  "workflow_error g db w clk err dat =
     emit_created db w
       (create_event g clk (EventType_value WORKFLOW_ERROR) ''workflow_orchestrator''
          (EventStatus_value ERROR) ''Workflow execution failed'' (py_or dat (PDict []))
          (Some err) PNone)"

text \<open>\<open>agent_started\<close> reads \<open>time.time()\<close> itself (\<open>t0\<close>) before it builds the event.\<close>

definition agent_started ::
  "'w event_generator \<Rightarrow> storage \<Rightarrow> 'w \<Rightarrow> real \<Rightarrow> clock \<Rightarrow> string \<Rightarrow> pyval \<Rightarrow>
   py_error + 'w event_generator \<times> storage \<times> 'w" where
  "agent_started g db w t0 clk agent dat =
     emit_created db w
       (create_event (g\<lparr>start_times := (start_times g)(agent \<mapsto> t0)\<rparr>) clk
          (EventType_value AGENT_STARTED) agent (EventStatus_value PROGRESS)
          (agent @ '' processing started'') (py_or dat (PDict [])) None PNone)"

definition agent_completed ::
  "'w event_generator \<Rightarrow> storage \<Rightarrow> 'w \<Rightarrow> clock \<Rightarrow> string \<Rightarrow> pyval \<Rightarrow>
   py_error + 'w event_generator \<times> storage \<times> 'w" where
  "agent_completed g db w clk agent dat =
     emit_created db w
       (create_event g clk (EventType_value AGENT_COMPLETED) agent
          (EventStatus_value SUCCESS) (agent @ '' processing completed'')
          (py_or dat (PDict [])) None PNone)"

definition agent_error ::
  "'w event_generator \<Rightarrow> storage \<Rightarrow> 'w \<Rightarrow> clock \<Rightarrow> string \<Rightarrow> string \<Rightarrow> pyval \<Rightarrow>
   py_error + 'w event_generator \<times> storage \<times> 'w" where
  "agent_error g db w clk agent err dat =
     emit_created db w
       (create_event g clk (EventType_value AGENT_ERROR) agent (EventStatus_value ERROR)
          (agent @ '' processing failed'') (py_or dat (PDict [])) (Some err) PNone)"

text \<open>
  The text Python prints for a float is not modelled: \<open>fmt\<close> stands for \<open>str(value)\<close>
  in \<open>performance_metric\<close> and for \<open>'%.1f' % progress\<close> in \<open>progress_update\<close>.
  \<open>unit\<close> and \<open>message\<close> are strings or \<open>None\<close>.
\<close>

definition performance_metric ::
  "(real \<Rightarrow> string) \<Rightarrow> 'w event_generator \<Rightarrow> storage \<Rightarrow> 'w \<Rightarrow> clock \<Rightarrow> string \<Rightarrow> string \<Rightarrow>
   real \<Rightarrow> string option \<Rightarrow> py_error + 'w event_generator \<times> storage \<times> 'w" where
  "performance_metric fmt g db w clk agent metric_name val unit =
     emit_created db w
       (create_event g clk (EventType_value PERFORMANCE_METRIC) agent
          (EventStatus_value INFO)
          (''Performance metric: '' @ metric_name @ '' = '' @ fmt val @
             (case unit of None \<Rightarrow> [] | Some u \<Rightarrow> u))
          (PDict [(''metric_name'', PStr metric_name), (''value'', PFloat val),
                  (''unit'', (case unit of None \<Rightarrow> PNone | Some u \<Rightarrow> PStr u))])
          None PNone)"

definition progress_update ::
  "(real \<Rightarrow> string) \<Rightarrow> 'w event_generator \<Rightarrow> storage \<Rightarrow> 'w \<Rightarrow> clock \<Rightarrow> string \<Rightarrow> real \<Rightarrow>
   string option \<Rightarrow> py_error + 'w event_generator \<times> storage \<times> 'w" where
  "progress_update fmt g db w clk agent progress msg =
     emit_created db w
       (create_event g clk (EventType_value PROGRESS_UPDATE) agent
          (EventStatus_value PROGRESS)
          (case msg of
             Some m \<Rightarrow> if m \<noteq> [] then m else ''Progress: '' @ fmt progress @ ''%''
           | None \<Rightarrow> ''Progress: '' @ fmt progress @ ''%'')
          (PDict [(''progress'', PFloat progress)]) None PNone)"

definition status_update ::
  "'w event_generator \<Rightarrow> storage \<Rightarrow> 'w \<Rightarrow> clock \<Rightarrow> string \<Rightarrow> string \<Rightarrow> string \<Rightarrow> pyval \<Rightarrow>
   py_error + 'w event_generator \<times> storage \<times> 'w" where
  "status_update g db w clk agent st msg dat =
     emit_created db w
       (create_event g clk (EventType_value STATUS_UPDATE) agent st msg
          (py_or dat (PDict [])) None PNone)"

section \<open>EventManager\<close>

text \<open>
  The registry \<open>active_generators\<close> is a Python \<open>dict\<close>: an association list in
  insertion order, where assigning to a present key replaces its value in place
  and assigning to a new key appends it.
\<close>

record 'w event_manager =
  mgr_storage :: storage
  active_generators :: "(string \<times> 'w event_generator) list"

definition EventManager :: "storage \<Rightarrow> 'w event_manager" where
  "EventManager db = \<lparr>mgr_storage = db, active_generators = []\<rparr>"

definition create_generator ::
  "'w event_manager \<Rightarrow> string \<Rightarrow> 'w event_generator \<times> 'w event_manager" where
  "create_generator m wid =
     (let g = EventGenerator wid
      in (g, m\<lparr>active_generators := AList.update wid g (active_generators m)\<rparr>))"

definition get_generator :: "'w event_manager \<Rightarrow> string \<Rightarrow> 'w event_generator option" where
  "get_generator m wid = map_of (active_generators m) wid"

definition remove_generator :: "'w event_manager \<Rightarrow> string \<Rightarrow> 'w event_manager" where
  "remove_generator m wid =
     (if wid \<in> set (map fst (active_generators m))
      then m\<lparr>active_generators := AList.delete wid (active_generators m)\<rparr>
      else m)"

definition get_active_workflows :: "'w event_manager \<Rightarrow> string list" where
  "get_active_workflows m = map fst (active_generators m)"

definition get_workflow_events :: "'w event_manager \<Rightarrow> string \<Rightarrow> int \<Rightarrow> workflow_event list" where
  "get_workflow_events m wid limit = get_events_by_workflow (mgr_storage m) wid limit"

section \<open>SSEServer\<close>

text \<open>
  The server of \<open>sse_server.py\<close>: the set of subscribed client ids, the queue of
  envelopes, what each stream generator has yielded to its client so far
  (\<open>yielded\<close>, pairs of client id and message) and what \<open>_send_to_subscribers\<close> has
  written to the log. The threads of the source (one stream generator per client,
  the broadcast loop, the producers) interleave; each definition below is one of
  their atomic steps.
\<close>

record sse_server =
  subscribers :: "string set"
  event_queue :: "pyval list"
  yielded :: "(string \<times> pyval) list"
  logged :: "pyval list"

definition SSEServer :: sse_server where
  "SSEServer = \<lparr>subscribers = {}, event_queue = [], yielded = [], logged = []\<rparr>"

text \<open>The stream generator of one client: its start, one turn of its loop, its end.\<close>

definition stream_connect :: "sse_server \<Rightarrow> string \<Rightarrow> datetime \<Rightarrow> sse_server" where
  "stream_connect s client_id now =
     s\<lparr>subscribers := insert client_id (subscribers s),
       yielded := yielded s @
         [(client_id, PDict [(''type'', PStr ''connection''), (''client_id'', PStr client_id),
                             (''timestamp'', PStr (isoformat now))])]\<rparr>"

definition stream_heartbeat :: "sse_server \<Rightarrow> string \<Rightarrow> datetime \<Rightarrow> sse_server" where
  "stream_heartbeat s client_id now =
     (if client_id \<in> subscribers s
      then s\<lparr>yielded := yielded s @
             [(client_id, PDict [(''type'', PStr ''heartbeat''),
                                 (''timestamp'', PStr (isoformat now))])]\<rparr>
      else s)"

definition stream_close :: "sse_server \<Rightarrow> string \<Rightarrow> sse_server" where
  "stream_close s client_id =
     (if client_id \<in> subscribers s then s\<lparr>subscribers := subscribers s - {client_id}\<rparr> else s)"

definition broadcast_event :: "sse_server \<Rightarrow> workflow_event \<Rightarrow> datetime \<Rightarrow> sse_server" where
  "broadcast_event s e now =
     (if subscribers s = {} then s
      else s\<lparr>event_queue := event_queue s @
             [PDict [(''type'', PStr ''workflow_event''), (''event'', to_dict e),
                     (''timestamp'', PStr (isoformat now))]]\<rparr>)"

definition send_to_subscribers :: "sse_server \<Rightarrow> pyval \<Rightarrow> sse_server" where
  "send_to_subscribers s event_data = s\<lparr>logged := logged s @ [event_data]\<rparr>"

text \<open>One pass of \<open>_broadcast_loop\<close>: the inner loop empties the queue.\<close>

fun drain :: "pyval list \<Rightarrow> sse_server \<Rightarrow> sse_server" where
  "drain [] s = s"
| "drain (x # xs) s = drain xs (send_to_subscribers s x)"

definition broadcast_loop_pass :: "sse_server \<Rightarrow> sse_server" where
  "broadcast_loop_pass s = drain (event_queue s) (s\<lparr>event_queue := []\<rparr>)"

datatype sse_step =
    Connect string datetime
  | Heartbeat string datetime
  | Close string
  | Broadcast workflow_event datetime
  | LoopPass

fun sse_do :: "sse_server \<Rightarrow> sse_step \<Rightarrow> sse_server" where
  "sse_do s (Connect c now) = stream_connect s c now"
| "sse_do s (Heartbeat c now) = stream_heartbeat s c now"
| "sse_do s (Close c) = stream_close s c"
| "sse_do s (Broadcast e now) = broadcast_event s e now"
| "sse_do s LoopPass = broadcast_loop_pass s"

definition sse_run :: "sse_step list \<Rightarrow> sse_server" where
  "sse_run steps = foldl sse_do SSEServer steps"

text \<open>The messages a client has received that carry a workflow event.\<close>

definition is_workflow_event_msg :: "pyval \<Rightarrow> bool" where
  "is_workflow_event_msg m =
     (case m of PDict kvs \<Rightarrow> map_of kvs ''type'' = Some (PStr ''workflow_event'') | _ \<Rightarrow> False)"

definition received_events :: "sse_server \<Rightarrow> string \<Rightarrow> pyval list" where
  "received_events s client_id =
     map snd (filter (\<lambda>cm. fst cm = client_id \<and> is_workflow_event_msg (snd cm)) (yielded s))"

section \<open>Store states, JSON-native payloads and delivered messages\<close>

text \<open>
  The table is created empty and only \<open>store_event\<close> writes to it, between outages of
  the database. The events it is given carry Python datetimes, which are valid.
\<close>

inductive reachable :: "storage \<Rightarrow> bool" where
  reachable_new: "reachable \<lparr>db_rows = [], db_ok = ok\<rparr>"
| reachable_store:
    "reachable db \<Longrightarrow> valid_datetime (timestamp e) \<Longrightarrow> store_event db e = Inr db' \<Longrightarrow>
     reachable db'"
| reachable_outage: "reachable db \<Longrightarrow> reachable (db\<lparr>db_ok := ok\<rparr>)"

text \<open>A row whose timestamp text is the ISO text of a valid datetime.\<close>

definition canonical_timestamp :: "row \<Rightarrow> bool" where
  "canonical_timestamp r = (\<exists>d. valid_datetime d \<and> r_timestamp r = isoformat d)"

text \<open>
  The payloads that JSON represents natively: \<open>None\<close>, booleans, numbers, strings,
  lists and dictionaries of such values. A tuple is serialisable but comes back as a
  list.
\<close>

fun json_native :: "pyval \<Rightarrow> bool" where
  "json_native (PList xs) = list_all json_native xs"
| "json_native (PTuple xs) = False"
| "json_native (PDict kvs) = list_all (\<lambda>kv. json_native (snd kv)) kvs"
| "json_native (PObject n) = False"
| "json_native v = True"

text \<open>No stream generator has yielded a message that carries a workflow event.\<close>

definition no_event_yielded :: "sse_server \<Rightarrow> bool" where
  "no_event_yielded s = (\<forall>cm \<in> set (yielded s). \<not> is_workflow_event_msg (snd cm))"

section \<open>Example values\<close>

text \<open>
  Concrete inputs for the evaluations below: two timestamps 0.2 seconds apart, the
  clock readings of two calls, a handler that records every event it is given, a
  handler that raises on every call, an empty database and one that cannot be reached.
\<close>

definition ts1 :: datetime where
  "ts1 = \<lparr>year = 2024, month = 3, day = 1, hour = 10, minute = 0, second = 0, microsecond = 0\<rparr>"

definition ts2 :: datetime where
  "ts2 = \<lparr>year = 2024, month = 3, day = 1, hour = 10, minute = 0, second = 0,
           microsecond = 200000\<rparr>"

definition clk1 :: clock where
  "clk1 = \<lparr>uuid4 = ''e1'', datetime_now = ts1, time_time = 1000\<rparr>"

definition clk2 :: clock where
  "clk2 = \<lparr>uuid4 = ''e2'', datetime_now = ts2, time_time = 1000.2\<rparr>"

definition recorder :: "workflow_event list handler" where
  "recorder e w = (None, w @ [e])"

definition failing :: "workflow_event list handler" where
  "failing e w = (Some (OtherError ''boom''), w)"

definition db_empty :: storage where
  "db_empty = \<lparr>db_rows = [], db_ok = True\<rparr>"

definition db_down :: storage where
  "db_down = \<lparr>db_rows = [], db_ok = False\<rparr>"

definition gen_rec :: "workflow_event list event_generator" where
  "gen_rec = add_handler (EventGenerator ''W1'') recorder"

text \<open>
  Handlers that append their tag and the event id to a list of strings; the second
  kind raises after it has done so.
\<close>

definition tag_ok :: "string \<Rightarrow> string list handler" where
  "tag_ok t e w = (None, w @ [t @ '':'' @ event_id e])"

definition tag_raise :: "string \<Rightarrow> string list handler" where
  "tag_raise t e w = (Some (OtherError t), w @ [t @ '':'' @ event_id e])"

definition gen_tags :: "string list event_generator" where
  "gen_tags =
     add_handler (add_handler (add_handler (EventGenerator ''W1'') (tag_raise ''h1''))
       (tag_ok ''h2'')) (tag_ok ''h3'')"

text \<open>
  Three events, two of workflow \<open>W1\<close> and one of \<open>W2\<close>, the rows \<open>store_event\<close> writes
  for them, and the databases after one, two and three of them are stored.
\<close>

definition ev_a :: workflow_event where
  "ev_a = \<lparr>event_id = ''e1'', workflow_id = ''W1'', timestamp = ts1,
           event_type = ''agent_started'', agent_name = ''parser'', status = ''progress'',
           message = ''parser processing started'',
           data = PDict [(''file'', PStr ''spec.xlsx'')],
           duration = Some 0.1, error = None, metadata = PNone\<rparr>"

definition ev_b :: workflow_event where
  "ev_b = \<lparr>event_id = ''e2'', workflow_id = ''W1'', timestamp = ts2,
           event_type = ''agent_completed'', agent_name = ''parser'', status = ''success'',
           message = ''parser processing completed'',
           data = PDict [(''items'', PInt 6), (''ok'', PBool True), (''ratio'', PFloat 0.5),
                         (''tags'', PList [PStr ''a'', PList [PInt 1, PNone]]),
                         (''nested'', PDict [(''k'', PStr ''v'')])],
           duration = None, error = None, metadata = PNone\<rparr>"

definition ev_c :: workflow_event where
  "ev_c = \<lparr>event_id = ''e3'', workflow_id = ''W2'', timestamp = ts1,
           event_type = ''workflow_error'', agent_name = ''workflow_orchestrator'',
           status = ''error'', message = ''Workflow execution failed'', data = PDict [],
           duration = None, error = Some ''boom'', metadata = PNone\<rparr>"

definition row_a :: row where
  "row_a = \<lparr>r_event_id = ''e1'', r_workflow_id = ''W1'', r_timestamp = isoformat ts1,
            r_event_type = ''agent_started'', r_agent_name = ''parser'',
            r_status = ''progress'', r_message = ''parser processing started'',
            r_data = JObject [(''file'', JString ''spec.xlsx'')],
            r_duration = Some 0.1, r_error = None, r_metadata = None\<rparr>"

definition row_b :: row where
  "row_b = \<lparr>r_event_id = ''e2'', r_workflow_id = ''W1'', r_timestamp = isoformat ts2,
            r_event_type = ''agent_completed'', r_agent_name = ''parser'',
            r_status = ''success'', r_message = ''parser processing completed'',
            r_data = JObject [(''items'', JInt 6), (''ok'', JBool True), (''ratio'', JReal 0.5),
                              (''tags'', JArray [JString ''a'', JArray [JInt 1, JNull]]),
                              (''nested'', JObject [(''k'', JString ''v'')])],
            r_duration = None, r_error = None, r_metadata = None\<rparr>"

definition row_c :: row where
  "row_c = \<lparr>r_event_id = ''e3'', r_workflow_id = ''W2'', r_timestamp = isoformat ts1,
            r_event_type = ''workflow_error'', r_agent_name = ''workflow_orchestrator'',
            r_status = ''error'', r_message = ''Workflow execution failed'',
            r_data = JObject [], r_duration = None, r_error = Some ''boom'',
            r_metadata = None\<rparr>"

definition db_a :: storage where
  "db_a = \<lparr>db_rows = [row_a], db_ok = True\<rparr>"

definition db_ab :: storage where
  "db_ab = \<lparr>db_rows = [row_a, row_b], db_ok = True\<rparr>"

definition db_abc :: storage where
  "db_abc = \<lparr>db_rows = [row_a, row_b, row_c], db_ok = True\<rparr>"

section \<open>Properties of the ISO text of a datetime\<close>

lemma length_zfill [simp]: "length (zfill w n) = w"
  by (induction w arbitrary: n) auto

lemma of_char_digit_char: "n < 10 \<Longrightarrow> (of_char (digit_char n) :: nat) = 48 + n"
  by (simp add: digit_char_def)

lemma digit_char_le: "a < 10 \<Longrightarrow> b < 10 \<Longrightarrow> (digit_char a \<le> digit_char b) = (a \<le> b)"
  by (simp add: less_eq_char_def of_char_digit_char)

lemma digit_char_less: "a < 10 \<Longrightarrow> b < 10 \<Longrightarrow> (digit_char a < digit_char b) = (a < b)"
  by (simp add: less_char_def of_char_digit_char)

lemma digit_char_eq: "a < 10 \<Longrightarrow> b < 10 \<Longrightarrow> (digit_char a = digit_char b) = (a = b)"
  by (metis digit_char_le order_antisym order_refl)

lemma lex_append_less:
  fixes xs ys :: "('a::linorder) list"
  shows "length xs = length ys \<Longrightarrow> (xs @ r < ys @ r') = (xs < ys \<or> xs = ys \<and> r < r')"
  by (induction xs ys rule: list_induct2) auto

lemma lex_append_le:
  fixes xs ys :: "('a::linorder) list"
  shows "length xs = length ys \<Longrightarrow> (xs @ r \<le> ys @ r') = (xs < ys \<or> xs = ys \<and> r \<le> r')"
  by (induction xs ys rule: list_induct2) auto

lemma divmod_eq_iff: "(a div 10 = b div 10 \<and> a mod 10 = b mod 10) = ((a::nat) = b)"
  by (metis div_mult_mod_eq)

lemma divmod_less_iff:
  "(a div 10 < b div 10 \<or> a div 10 = b div 10 \<and> a mod 10 < b mod 10) = ((a::nat) < b)"
proof -
  have a: "a = 10 * (a div 10) + a mod 10" and b: "b = 10 * (b div 10) + b mod 10" by simp_all
  have ma: "a mod 10 < 10" and mb: "b mod 10 < 10" by simp_all
  show ?thesis using a b ma mb by linarith
qed

lemma zfill_eq: "a < 10 ^ w \<Longrightarrow> b < 10 ^ w \<Longrightarrow> (zfill w a = zfill w b) = (a = b)"
proof (induction w arbitrary: a b)
  case 0
  then show ?case by simp
next
  case (Suc w)
  have qa: "a div 10 < 10 ^ w" and qb: "b div 10 < 10 ^ w"
    using Suc.prems by (simp_all add: less_mult_imp_div_less mult.commute)
  have "(zfill (Suc w) a = zfill (Suc w) b) = (a div 10 = b div 10 \<and> a mod 10 = b mod 10)"
    using Suc.IH [OF qa qb] by (simp add: digit_char_eq)
  also have "\<dots> = (a = b)"
    by (rule divmod_eq_iff)
  finally show ?case .
qed

lemma zfill_less: "a < 10 ^ w \<Longrightarrow> b < 10 ^ w \<Longrightarrow> (zfill w a < zfill w b) = (a < b)"
proof (induction w arbitrary: a b)
  case 0
  then show ?case by simp
next
  case (Suc w)
  have qa: "a div 10 < 10 ^ w" and qb: "b div 10 < 10 ^ w"
    using Suc.prems by (simp_all add: less_mult_imp_div_less mult.commute)
  have "(zfill (Suc w) a < zfill (Suc w) b) =
        (a div 10 < b div 10 \<or> a div 10 = b div 10 \<and> a mod 10 < b mod 10)"
    using Suc.IH [OF qa qb] zfill_eq [OF qa qb]
    by (simp add: lex_append_less digit_char_less)
  also have "\<dots> = (a < b)"
    by (rule divmod_less_iff)
  finally show ?case .
qed

lemma zfill_le: "a < 10 ^ w \<Longrightarrow> b < 10 ^ w \<Longrightarrow> (zfill w a \<le> zfill w b) = (a \<le> b)"
  using zfill_less [of a w b] zfill_eq [of a w b] by (auto simp: le_less)

lemma frac_eq: "a < 1000000 \<Longrightarrow> b < 1000000 \<Longrightarrow> (frac a = frac b) = (a = b)"
  using zfill_eq [of a 6 b] by (auto simp: frac_def)

lemma frac_less: "a < 1000000 \<Longrightarrow> b < 1000000 \<Longrightarrow> (frac a < frac b) = (a < b)"
  using zfill_less [of a 6 b] by (auto simp: frac_def)

lemma frac_le: "a < 1000000 \<Longrightarrow> b < 1000000 \<Longrightarrow> (frac a \<le> frac b) = (a \<le> b)"
  using frac_less [of a b] frac_eq [of a b] by (auto simp: le_less)

lemma valid_bounds:
  assumes "valid_datetime d"
  shows "year d < 10 ^ 4" "month d < 10 ^ 2" "day d < 10 ^ 2" "hour d < 10 ^ 2"
    "minute d < 10 ^ 2" "second d < 10 ^ 2" "microsecond d < 1000000"
  using assms by (auto simp: valid_datetime_def days_in_month_def split: if_splits)

lemma isoformat_le:
  assumes a: "valid_datetime a" and b: "valid_datetime b"
  shows "(isoformat a \<le> isoformat b) = dt_le a b"
  unfolding isoformat_def dt_le_def dt_fields_def
  by (simp add: lex_append_le lex_append_less
      zfill_less [OF valid_bounds(1) [OF a] valid_bounds(1) [OF b]]
      zfill_eq [OF valid_bounds(1) [OF a] valid_bounds(1) [OF b]]
      zfill_less [OF valid_bounds(2) [OF a] valid_bounds(2) [OF b]]
      zfill_eq [OF valid_bounds(2) [OF a] valid_bounds(2) [OF b]]
      zfill_less [OF valid_bounds(3) [OF a] valid_bounds(3) [OF b]]
      zfill_eq [OF valid_bounds(3) [OF a] valid_bounds(3) [OF b]]
      zfill_less [OF valid_bounds(4) [OF a] valid_bounds(4) [OF b]]
      zfill_eq [OF valid_bounds(4) [OF a] valid_bounds(4) [OF b]]
      zfill_less [OF valid_bounds(5) [OF a] valid_bounds(5) [OF b]]
      zfill_eq [OF valid_bounds(5) [OF a] valid_bounds(5) [OF b]]
      zfill_less [OF valid_bounds(6) [OF a] valid_bounds(6) [OF b]]
      zfill_eq [OF valid_bounds(6) [OF a] valid_bounds(6) [OF b]]
      frac_less [OF valid_bounds(7) [OF a] valid_bounds(7) [OF b]]
      frac_eq [OF valid_bounds(7) [OF a] valid_bounds(7) [OF b]] le_less)

lemma is_digit_digit_char: "n < 10 \<Longrightarrow> is_digit (digit_char n)"
  by (simp add: is_digit_def of_char_digit_char)

lemma parse_nat_append:
  "parse_nat acc (xs @ ys) = (case parse_nat acc xs of None \<Rightarrow> None | Some r \<Rightarrow> parse_nat r ys)"
  by (induction xs arbitrary: acc) auto

lemma parse_nat_zfill: "n < 10 ^ w \<Longrightarrow> parse_nat acc (zfill w n) = Some (acc * 10 ^ w + n)"
proof (induction w arbitrary: n acc)
  case 0
  then show ?case by simp
next
  case (Suc w)
  have q: "n div 10 < 10 ^ w"
    using Suc.prems by (simp add: less_mult_imp_div_less mult.commute)
  have "parse_nat acc (zfill (Suc w) n) = Some (10 * (acc * 10 ^ w + n div 10) + n mod 10)"
    by (simp add: parse_nat_append Suc.IH [OF q] is_digit_digit_char of_char_digit_char)
  also have "10 * (acc * 10 ^ w + n div 10) + n mod 10 = acc * 10 ^ Suc w + n"
    by (simp add: algebra_simps)
  finally show ?case .
qed

lemma parse_field_zfill: "0 < w \<Longrightarrow> n < 10 ^ w \<Longrightarrow> parse_field (zfill w n) = Some n"
  using length_zfill [of w n] by (auto simp: parse_field_def parse_nat_zfill simp del: length_zfill)

lemma len2: "length xs = 2 \<Longrightarrow> \<exists>a b. xs = [a, b]"
  by (auto simp: numeral_2_eq_2 length_Suc_conv)

lemma len4: "length xs = 4 \<Longrightarrow> \<exists>a b c d. xs = [a, b, c, d]"
  by (auto simp: eval_nat_numeral length_Suc_conv)

lemma len6: "length xs = 6 \<Longrightarrow> \<exists>a b c d e f. xs = [a, b, c, d, e, f]"
  by (auto simp: eval_nat_numeral length_Suc_conv)

lemma fromisoformat_parts:
  assumes "length Y = 4" "length M = 2" "length D = 2" "length H = 2" "length Mi = 2"
    "length S = 2"
  shows "fromisoformat (Y @ ''-'' @ M @ ''-'' @ D @ [sep] @ H @ '':'' @ Mi @ '':'' @ S) =
           make_datetime (parse_field Y) (parse_field M) (parse_field D) (parse_field H)
             (parse_field Mi) (parse_field S) (Some 0)"
    and "length F = 6 \<Longrightarrow>
         fromisoformat (Y @ ''-'' @ M @ ''-'' @ D @ [sep] @ H @ '':'' @ Mi @ '':'' @ S @ ''.'' @ F) =
           make_datetime (parse_field Y) (parse_field M) (parse_field D) (parse_field H)
             (parse_field Mi) (parse_field S) (parse_field F)"
proof -
  obtain y1 y2 y3 y4 where Y: "Y = [y1, y2, y3, y4]" using len4 [OF assms(1)] by blast
  obtain m1 m2 where M: "M = [m1, m2]" using len2 [OF assms(2)] by blast
  obtain d1 d2 where D: "D = [d1, d2]" using len2 [OF assms(3)] by blast
  obtain h1 h2 where H: "H = [h1, h2]" using len2 [OF assms(4)] by blast
  obtain i1 i2 where Mi: "Mi = [i1, i2]" using len2 [OF assms(5)] by blast
  obtain s1 s2 where S: "S = [s1, s2]" using len2 [OF assms(6)] by blast
  show "fromisoformat (Y @ ''-'' @ M @ ''-'' @ D @ [sep] @ H @ '':'' @ Mi @ '':'' @ S) =
           make_datetime (parse_field Y) (parse_field M) (parse_field D) (parse_field H)
             (parse_field Mi) (parse_field S) (Some 0)"
    by (simp add: Y M D H Mi S fromisoformat_def)
  assume "length F = 6"
  then obtain f1 f2 f3 f4 f5 f6 where F: "F = [f1, f2, f3, f4, f5, f6]" using len6 by blast
  show "fromisoformat (Y @ ''-'' @ M @ ''-'' @ D @ [sep] @ H @ '':'' @ Mi @ '':'' @ S @ ''.'' @ F) =
           make_datetime (parse_field Y) (parse_field M) (parse_field D) (parse_field H)
             (parse_field Mi) (parse_field S) (parse_field F)"
    by (simp add: Y M D H Mi S F fromisoformat_def)
qed

lemma fromisoformat_isoformat:
  assumes v: "valid_datetime d"
  shows "fromisoformat (isoformat d) = Inr d"
proof -
  note b = valid_bounds [OF v]
  have mk: "make_datetime (Some (year d)) (Some (month d)) (Some (day d)) (Some (hour d))
              (Some (minute d)) (Some (second d)) (Some (microsecond d)) = Inr d"
  proof -
    have "valid_datetime \<lparr>year = year d, month = month d, day = day d, hour = hour d,
           minute = minute d, second = second d, microsecond = microsecond d\<rparr>"
      using v by (simp add: valid_datetime_def)
    then show ?thesis by (simp add: make_datetime_def Let_def)
  qed
  show ?thesis
  proof (cases "microsecond d = 0")
    case True
    have "fromisoformat (isoformat d) =
            make_datetime (parse_field (zfill 4 (year d))) (parse_field (zfill 2 (month d)))
              (parse_field (zfill 2 (day d))) (parse_field (zfill 2 (hour d)))
              (parse_field (zfill 2 (minute d))) (parse_field (zfill 2 (second d))) (Some 0)"
      using True fromisoformat_parts(1) [of "zfill 4 (year d)" "zfill 2 (month d)"
          "zfill 2 (day d)" "zfill 2 (hour d)" "zfill 2 (minute d)" "zfill 2 (second d)"
          "CHR ''T''"]
      by (simp add: isoformat_def frac_def)
    then show ?thesis using mk True b by (simp add: parse_field_zfill)
  next
    case False
    have "fromisoformat (isoformat d) =
            make_datetime (parse_field (zfill 4 (year d))) (parse_field (zfill 2 (month d)))
              (parse_field (zfill 2 (day d))) (parse_field (zfill 2 (hour d)))
              (parse_field (zfill 2 (minute d))) (parse_field (zfill 2 (second d)))
              (parse_field (zfill 6 (microsecond d)))"
      using False fromisoformat_parts(2) [of "zfill 4 (year d)" "zfill 2 (month d)"
          "zfill 2 (day d)" "zfill 2 (hour d)" "zfill 2 (minute d)" "zfill 2 (second d)"
          "zfill 6 (microsecond d)" "CHR ''T''"]
      by (simp add: isoformat_def frac_def)
    then show ?thesis using mk b by (simp add: parse_field_zfill)
  qed
qed

section \<open>Emission, handlers and the start-time table\<close>

lemma notify_handlers_foldl:
  "notify_handlers hs e w = foldl (\<lambda>w' h. snd (h e w')) w hs"
  by (induction hs arbitrary: w) (auto split: prod.splits option.splits)

lemma notify_handlers_append:
  "notify_handlers (hs @ hs') e w = notify_handlers hs' e (notify_handlers hs e w)"
  by (simp add: notify_handlers_foldl)

lemma emit_event_cases:
  "emit_event g db w e =
     (case store_event db e of
        Inl x \<Rightarrow> Inr (db, w)
      | Inr db' \<Rightarrow> Inr (db', notify_handlers (event_handlers g) e w))"
  by (simp add: emit_event_def emit_event_try_def split: sum.splits)

lemma emit_created_total:
  "\<exists>db' w'. emit_created db w eg = Inr (snd eg, db', w')"
  by (simp add: emit_created_def emit_event_cases split: sum.splits)

lemma create_event_consumes:
  "start_times (snd (create_event g clk etype agent st msg dat err meta)) agent = None"
  by (simp add: create_event_def split: option.splits)

lemma emit_created_start_times:
  "\<exists>g' db' w'. emit_created db w (create_event g clk etype agent st msg dat err meta)
       = Inr (g', db', w') \<and> start_times g' agent = None"
  using emit_created_total [of db w "create_event g clk etype agent st msg dat err meta"]
    create_event_consumes [of g clk etype agent st msg dat err meta]
  by auto

text \<open>
  Claim C10. After any public emission call that names agent \<open>A\<close> returns, the start-time
  table of the generator has no entry for \<open>A\<close>: \<open>create_event\<close> reads and deletes the
  entry of its agent for every event it builds, also for \<open>agent_started\<close>,
  \<open>progress_update\<close> and \<open>performance_metric\<close>. The three workflow emitters name the
  agent \<open>workflow_orchestrator\<close>.
\<close>

theorem start_time_consumed_by_every_emitter:
  "(\<exists>g' db' w'. workflow_started g db w clk dat = Inr (g', db', w')
       \<and> start_times g' ''workflow_orchestrator'' = None) \<and>
   (\<exists>g' db' w'. workflow_completed g db w clk dat = Inr (g', db', w')
       \<and> start_times g' ''workflow_orchestrator'' = None) \<and>
   (\<exists>g' db' w'. workflow_error g db w clk err dat = Inr (g', db', w')
       \<and> start_times g' ''workflow_orchestrator'' = None) \<and>
   (\<exists>g' db' w'. agent_started g db w t0 clk A dat = Inr (g', db', w')
       \<and> start_times g' A = None) \<and>
   (\<exists>g' db' w'. agent_completed g db w clk A dat = Inr (g', db', w')
       \<and> start_times g' A = None) \<and>
   (\<exists>g' db' w'. agent_error g db w clk A err dat = Inr (g', db', w')
       \<and> start_times g' A = None) \<and>
   (\<exists>g' db' w'. performance_metric fmt g db w clk A mname val unit = Inr (g', db', w')
       \<and> start_times g' A = None) \<and>
   (\<exists>g' db' w'. progress_update fmt g db w clk A progress msg = Inr (g', db', w')
       \<and> start_times g' A = None) \<and>
   (\<exists>g' db' w'. status_update g db w clk A st smsg dat = Inr (g', db', w')
       \<and> start_times g' A = None)"
  unfolding workflow_started_def workflow_completed_def workflow_error_def agent_started_def
    agent_completed_def agent_error_def performance_metric_def progress_update_def
    status_update_def
  by (intro conjI emit_created_start_times)

lemmas emitter_defs = workflow_started_def workflow_completed_def workflow_error_def
  agent_started_def agent_completed_def agent_error_def performance_metric_def
  progress_update_def status_update_def

lemmas example_defs = clk1_def clk2_def recorder_def failing_def db_empty_def db_down_def
  gen_rec_def add_handler_def EventGenerator_def

lemmas store_defs = store_event_def insert_params_def json_dumps_def py_or_def

text \<open>
  Claim C1 says that \<open>agent_completed(A)\<close> after \<open>agent_started(A)\<close> carries the elapsed
  time. Evaluated on the code: \<open>agent_started\<close> stores the start time and the event it
  builds at once consumes it, so the started event carries the duration (here 0.1)
  and the completed event, 0.2 seconds later, carries \<open>None\<close>, in what the handlers
  receive and in the stored rows.
\<close>

theorem completed_after_started_has_no_duration:
  "(case agent_started gen_rec db_empty [] 999.9 clk1 ''parser'' (PDict []) of
      Inl x \<Rightarrow> False
    | Inr (g1, db1, w1) \<Rightarrow>
        (case agent_completed g1 db1 w1 clk2 ''parser'' (PDict [(''items'', PInt 6)]) of
           Inl x \<Rightarrow> False
         | Inr (g2, db2, w2) \<Rightarrow>
             map event_type w2 = [''agent_started'', ''agent_completed''] \<and>
             map duration w2 = [Some 0.1, None] \<and>
             map r_duration (db_rows db2) = [Some 0.1, None]))"
  by (simp add: emitter_defs example_defs emit_created_def emit_event_cases create_event_def
      store_defs)


text \<open>
  Claim C2 says that every handler is invoked even when the store write fails.
  With a database that cannot be reached the call returns, the storage is unchanged
  and the registered recording handler has not been called.
\<close>

theorem store_failure_skips_handlers:
  "workflow_started gen_rec db_down [] clk1 (PDict []) = Inr (gen_rec, db_down, []) \<and>
   event_handlers gen_rec = [recorder] \<and>
   store_event db_down (fst (create_event gen_rec clk1 ''workflow_started''
       ''workflow_orchestrator'' ''info'' ''Workflow execution started'' (PDict []) None PNone))
     = Inl OperationalError \<and>
   snd (recorder (fst (create_event gen_rec clk1 ''workflow_started''
       ''workflow_orchestrator'' ''info'' ''Workflow execution started'' (PDict []) None PNone))
     []) \<noteq> []"
  by (simp add: emitter_defs example_defs emit_created_def emit_event_cases create_event_def
      store_defs)

lemma create_event_handlers:
  "event_handlers (snd (create_event g clk etype agent st msg dat err meta)) = event_handlers g"
  by (simp add: create_event_def split: option.splits)

lemma create_event_handlers_upd:
  "event_handlers (snd (create_event (g\<lparr>start_times := t\<rparr>) clk etype agent st msg dat err meta))
     = event_handlers g"
  by (simp add: create_event_def split: option.splits)

lemma emit_created_returns: "\<exists>r. emit_created db w ce = Inr r"
  using emit_created_total [of db w ce] by blast

lemma emit_created_stored:
  "event_handlers (snd ce) = hs \<Longrightarrow>
   \<forall>db'. store_event db (fst ce) = Inr db' \<longrightarrow>
     emit_created db w ce = Inr (snd ce, db', foldl (\<lambda>w' h. snd (h (fst ce) w')) w hs)"
  by (auto simp: emit_created_def emit_event_cases notify_handlers_foldl)

lemma emit_created_store_failed:
  "\<forall>x. store_event db (fst ce) = Inl x \<longrightarrow> emit_created db w ce = Inr (snd ce, db, w)"
  by (simp add: emit_created_def emit_event_cases)

text \<open>
  Claim C2, amended. No public emission call raises. For each of the nine emitters,
  with \<open>ce\<close> the event and the generator that its \<open>create_event\<close> call builds: when
  the store write of the event succeeds, the call returns the new storage and the
  state left by invoking every registered handler with the event, in registration
  order, whether or not earlier handlers raise; when the store write fails, the
  call returns with the storage unchanged and no handler invoked.
\<close>

theorem emitters_return_and_notify_after_store:
  "(let ce = create_event g clk (EventType_value WORKFLOW_STARTED) ''workflow_orchestrator''
            (EventStatus_value INFO) ''Workflow execution started'' (py_or dat (PDict []))
            None PNone
    in (\<exists>r. workflow_started g db w clk dat = Inr r) \<and>
       (\<forall>db'. store_event db (fst ce) = Inr db' \<longrightarrow>
          workflow_started g db w clk dat =
            Inr (snd ce, db', foldl (\<lambda>w' h. snd (h (fst ce) w')) w (event_handlers g))) \<and>
       (\<forall>x. store_event db (fst ce) = Inl x \<longrightarrow>
          workflow_started g db w clk dat = Inr (snd ce, db, w))) \<and>
   (let ce = create_event g clk (EventType_value WORKFLOW_COMPLETED) ''workflow_orchestrator''
            (EventStatus_value SUCCESS) ''Workflow execution completed''
            (py_or dat (PDict [])) None PNone
    in (\<exists>r. workflow_completed g db w clk dat = Inr r) \<and>
       (\<forall>db'. store_event db (fst ce) = Inr db' \<longrightarrow>
          workflow_completed g db w clk dat =
            Inr (snd ce, db', foldl (\<lambda>w' h. snd (h (fst ce) w')) w (event_handlers g))) \<and>
       (\<forall>x. store_event db (fst ce) = Inl x \<longrightarrow>
          workflow_completed g db w clk dat = Inr (snd ce, db, w))) \<and>
   (let ce = create_event g clk (EventType_value WORKFLOW_ERROR) ''workflow_orchestrator''
            (EventStatus_value ERROR) ''Workflow execution failed'' (py_or dat (PDict []))
            (Some err) PNone
    in (\<exists>r. workflow_error g db w clk err dat = Inr r) \<and>
       (\<forall>db'. store_event db (fst ce) = Inr db' \<longrightarrow>
          workflow_error g db w clk err dat =
            Inr (snd ce, db', foldl (\<lambda>w' h. snd (h (fst ce) w')) w (event_handlers g))) \<and>
       (\<forall>x. store_event db (fst ce) = Inl x \<longrightarrow>
          workflow_error g db w clk err dat = Inr (snd ce, db, w))) \<and>
   (let ce = create_event (g\<lparr>start_times := (start_times g)(A \<mapsto> t0)\<rparr>) clk
            (EventType_value AGENT_STARTED) A (EventStatus_value PROGRESS)
            (A @ '' processing started'') (py_or dat (PDict [])) None PNone
    in (\<exists>r. agent_started g db w t0 clk A dat = Inr r) \<and>
       (\<forall>db'. store_event db (fst ce) = Inr db' \<longrightarrow>
          agent_started g db w t0 clk A dat =
            Inr (snd ce, db', foldl (\<lambda>w' h. snd (h (fst ce) w')) w (event_handlers g))) \<and>
       (\<forall>x. store_event db (fst ce) = Inl x \<longrightarrow>
          agent_started g db w t0 clk A dat = Inr (snd ce, db, w))) \<and>
   (let ce = create_event g clk (EventType_value AGENT_COMPLETED) A (EventStatus_value SUCCESS)
            (A @ '' processing completed'') (py_or dat (PDict [])) None PNone
    in (\<exists>r. agent_completed g db w clk A dat = Inr r) \<and>
       (\<forall>db'. store_event db (fst ce) = Inr db' \<longrightarrow>
          agent_completed g db w clk A dat =
            Inr (snd ce, db', foldl (\<lambda>w' h. snd (h (fst ce) w')) w (event_handlers g))) \<and>
       (\<forall>x. store_event db (fst ce) = Inl x \<longrightarrow>
          agent_completed g db w clk A dat = Inr (snd ce, db, w))) \<and>
   (let ce = create_event g clk (EventType_value AGENT_ERROR) A (EventStatus_value ERROR)
            (A @ '' processing failed'') (py_or dat (PDict [])) (Some err) PNone
    in (\<exists>r. agent_error g db w clk A err dat = Inr r) \<and>
       (\<forall>db'. store_event db (fst ce) = Inr db' \<longrightarrow>
          agent_error g db w clk A err dat =
            Inr (snd ce, db', foldl (\<lambda>w' h. snd (h (fst ce) w')) w (event_handlers g))) \<and>
       (\<forall>x. store_event db (fst ce) = Inl x \<longrightarrow>
          agent_error g db w clk A err dat = Inr (snd ce, db, w))) \<and>
   (let ce = create_event g clk (EventType_value PERFORMANCE_METRIC) A (EventStatus_value INFO)
            (''Performance metric: '' @ mname @ '' = '' @ fmt val @
               (case unit of None \<Rightarrow> [] | Some u \<Rightarrow> u))
            (PDict [(''metric_name'', PStr mname), (''value'', PFloat val),
                    (''unit'', (case unit of None \<Rightarrow> PNone | Some u \<Rightarrow> PStr u))])
            None PNone
    in (\<exists>r. performance_metric fmt g db w clk A mname val unit = Inr r) \<and>
       (\<forall>db'. store_event db (fst ce) = Inr db' \<longrightarrow>
          performance_metric fmt g db w clk A mname val unit =
            Inr (snd ce, db', foldl (\<lambda>w' h. snd (h (fst ce) w')) w (event_handlers g))) \<and>
       (\<forall>x. store_event db (fst ce) = Inl x \<longrightarrow>
          performance_metric fmt g db w clk A mname val unit = Inr (snd ce, db, w))) \<and>
   (let ce = create_event g clk (EventType_value PROGRESS_UPDATE) A (EventStatus_value PROGRESS)
            (case msg of
               Some m \<Rightarrow> if m \<noteq> [] then m else ''Progress: '' @ fmt progress @ ''%''
             | None \<Rightarrow> ''Progress: '' @ fmt progress @ ''%'')
            (PDict [(''progress'', PFloat progress)]) None PNone
    in (\<exists>r. progress_update fmt g db w clk A progress msg = Inr r) \<and>
       (\<forall>db'. store_event db (fst ce) = Inr db' \<longrightarrow>
          progress_update fmt g db w clk A progress msg =
            Inr (snd ce, db', foldl (\<lambda>w' h. snd (h (fst ce) w')) w (event_handlers g))) \<and>
       (\<forall>x. store_event db (fst ce) = Inl x \<longrightarrow>
          progress_update fmt g db w clk A progress msg = Inr (snd ce, db, w))) \<and>
   (let ce = create_event g clk (EventType_value STATUS_UPDATE) A st smsg (py_or dat (PDict []))
            None PNone
    in (\<exists>r. status_update g db w clk A st smsg dat = Inr r) \<and>
       (\<forall>db'. store_event db (fst ce) = Inr db' \<longrightarrow>
          status_update g db w clk A st smsg dat =
            Inr (snd ce, db', foldl (\<lambda>w' h. snd (h (fst ce) w')) w (event_handlers g))) \<and>
       (\<forall>x. store_event db (fst ce) = Inl x \<longrightarrow>
          status_update g db w clk A st smsg dat = Inr (snd ce, db, w)))"
  unfolding emitter_defs Let_def
  by (intro conjI emit_created_returns emit_created_stored emit_created_store_failed
      create_event_handlers create_event_handlers_upd)

text \<open>
  Claim C2, amended, on a generator with three handlers, the first of which raises
  on every call: with a store that accepts the event the three are invoked in
  registration order, with a store that fails none is.
\<close>

theorem emitters_return_and_notify_after_store_witness:
  "store_event db_empty
     (fst (create_event gen_tags clk1 (EventType_value AGENT_COMPLETED) ''parser''
        (EventStatus_value SUCCESS) (''parser'' @ '' processing completed'')
        (py_or (PDict []) (PDict [])) None PNone)) =
     Inr (db_empty\<lparr>db_rows := [\<lparr>r_event_id = ''e1'', r_workflow_id = ''W1'',
            r_timestamp = isoformat ts1, r_event_type = ''agent_completed'',
            r_agent_name = ''parser'', r_status = ''success'',
            r_message = ''parser processing completed'', r_data = JObject [],
            r_duration = None, r_error = None, r_metadata = None\<rparr>]\<rparr>) \<and>
   agent_completed gen_tags db_empty [] clk1 ''parser'' (PDict []) =
     Inr (gen_tags,
          db_empty\<lparr>db_rows := [\<lparr>r_event_id = ''e1'', r_workflow_id = ''W1'',
            r_timestamp = isoformat ts1, r_event_type = ''agent_completed'',
            r_agent_name = ''parser'', r_status = ''success'',
            r_message = ''parser processing completed'', r_data = JObject [],
            r_duration = None, r_error = None, r_metadata = None\<rparr>]\<rparr>,
          [''h1:e1'', ''h2:e1'', ''h3:e1'']) \<and>
   store_event db_down
     (fst (create_event gen_tags clk1 (EventType_value AGENT_COMPLETED) ''parser''
        (EventStatus_value SUCCESS) (''parser'' @ '' processing completed'')
        (py_or (PDict []) (PDict [])) None PNone)) = Inl OperationalError \<and>
   agent_completed gen_tags db_down [] clk1 ''parser'' (PDict []) = Inr (gen_tags, db_down, [])"
  using emitters_return_and_notify_after_store [where g = gen_tags and db = db_empty
      and w = "[]" and clk = clk1 and A = "''parser''" and dat = "PDict []"]
    emitters_return_and_notify_after_store [where g = gen_tags and db = db_down
      and w = "[]" and clk = clk1 and A = "''parser''" and dat = "PDict []"]
  by (simp add: Let_def example_defs gen_tags_def tag_ok_def tag_raise_def create_event_def
      store_defs)

lemma store_event_ok:
  assumes "db_ok db" "serializable (data e)" "truthy (metadata e) \<longrightarrow> serializable (metadata e)"
    "event_id e \<notin> set (map r_event_id (db_rows db))"
  shows "\<exists>r. insert_params e = Inr r \<and> r_event_id r = event_id e \<and>
             store_event db e = Inr (db\<lparr>db_rows := db_rows db @ [r]\<rparr>)"
  using assms by (auto simp: store_event_def insert_params_def json_dumps_def)

text \<open>
  Claim C7. A registered handler that raises on every call does not keep the event
  from being stored, and a handler registered after it is still invoked with the
  same event.
\<close>

theorem raising_handler_blocks_nothing:
  assumes "\<forall>ev st. fst (bad ev st) \<noteq> None"
    and "event_handlers g = pre @ [bad] @ mid @ [good] @ post"
    and "db_ok db" and "serializable (data e)"
    and "truthy (metadata e) \<longrightarrow> serializable (metadata e)"
    and "event_id e \<notin> set (map r_event_id (db_rows db))"
  shows "\<exists>r. insert_params e = Inr r \<and>
           emit_event g db w e =
             Inr (db\<lparr>db_rows := db_rows db @ [r]\<rparr>,
                  notify_handlers post e
                    (snd (good e (notify_handlers mid e
                       (snd (bad e (notify_handlers pre e w)))))))"
proof -
  obtain r where r: "insert_params e = Inr r"
    and st: "store_event db e = Inr (db\<lparr>db_rows := db_rows db @ [r]\<rparr>)"
    using store_event_ok [OF assms(3-6)] by blast
  have "notify_handlers (pre @ [bad] @ mid @ [good] @ post) e w =
          notify_handlers post e
            (snd (good e (notify_handlers mid e (snd (bad e (notify_handlers pre e w))))))"
    by (simp add: notify_handlers_foldl)
  then show ?thesis
    using r st assms(2) by (simp add: emit_event_cases)
qed

text \<open>Claim C7 with the always-raising handler registered before the recording one.\<close>

theorem raising_handler_blocks_nothing_witness:
  "(\<forall>ev st. fst (failing ev st) \<noteq> None) \<and>
   emit_event (add_handler (add_handler (EventGenerator ''W1'') failing) recorder) db_empty []
       (fst (create_event gen_rec clk1 ''t'' ''a'' ''s'' ''m'' PNone None PNone)) =
     Inr (db_empty\<lparr>db_rows := [\<lparr>r_event_id = ''e1'', r_workflow_id = ''W1'',
             r_timestamp = isoformat ts1, r_event_type = ''t'', r_agent_name = ''a'',
             r_status = ''s'', r_message = ''m'', r_data = JObject [], r_duration = None,
             r_error = None, r_metadata = None\<rparr>]\<rparr>,
          [fst (create_event gen_rec clk1 ''t'' ''a'' ''s'' ''m'' PNone None PNone)])"
  using raising_handler_blocks_nothing [where bad = failing and good = recorder
      and pre = "[]" and mid = "[]" and post = "[]" and db = db_empty and w = "[]"
      and g = "add_handler (add_handler (EventGenerator ''W1'') failing) recorder"
      and e = "fst (create_event gen_rec clk1 ''t'' ''a'' ''s'' ''m'' PNone None PNone)"]
  by (simp add: example_defs create_event_def store_defs)

text \<open>
  Claim C9. \<open>get_active_workflows\<close> returns exactly the registered workflow ids:
  \<open>["W1"]\<close> after \<open>create_generator("W1")\<close> on a new manager, \<open>[]\<close> after the following
  \<open>remove_generator("W1")\<close>; removing an id that is not registered changes nothing.
\<close>

theorem active_workflows_track_registry:
  "set (get_active_workflows m) = {wid. get_generator m wid \<noteq> None} \<and>
   get_active_workflows (snd (create_generator (EventManager db) ''W1'')) = [''W1''] \<and>
   get_active_workflows
     (remove_generator (snd (create_generator (EventManager db) ''W1'')) ''W1'') = [] \<and>
   (wid \<notin> set (get_active_workflows m) \<longrightarrow> remove_generator m wid = m) \<and>
   wid \<in> set (get_active_workflows (snd (create_generator m wid))) \<and>
   wid \<notin> set (get_active_workflows (remove_generator m wid))"
proof -
  have 1: "set (get_active_workflows m) = {wid. get_generator m wid \<noteq> None}"
    by (auto simp: get_active_workflows_def get_generator_def map_of_eq_None_iff
        simp flip: not_None_eq)
  have 2: "get_active_workflows (snd (create_generator (EventManager db) ''W1'')) = [''W1'']"
    by (simp add: get_active_workflows_def create_generator_def EventManager_def Let_def)
  have 3: "get_active_workflows
     (remove_generator (snd (create_generator (EventManager db) ''W1'')) ''W1'') = []"
    by (simp add: get_active_workflows_def create_generator_def EventManager_def
        remove_generator_def Let_def)
  have 4: "wid \<notin> set (get_active_workflows m) \<longrightarrow> remove_generator m wid = m"
    by (simp add: get_active_workflows_def remove_generator_def)
  have 5: "wid \<in> set (get_active_workflows (snd (create_generator m wid)))"
    by (simp add: get_active_workflows_def create_generator_def Let_def AList.dom_update)
  have 6: "wid \<notin> set (get_active_workflows (remove_generator m wid))"
    by (auto simp: get_active_workflows_def remove_generator_def AList.delete_eq)
  show ?thesis using 1 2 3 4 5 6 by blast
qed


text \<open>Claim C9: removing the unregistered \<open>W2\<close> from a registry that holds \<open>W1\<close>.\<close>

theorem active_workflows_track_registry_witness:
  "''W2'' \<notin> set (get_active_workflows
      (snd (create_generator (EventManager db_empty :: unit event_manager) ''W1''))) \<and>
   remove_generator (snd (create_generator (EventManager db_empty :: unit event_manager) ''W1''))
      ''W2'' = snd (create_generator (EventManager db_empty) ''W1'')"
proof -
  have absent: "''W2'' \<notin> set (get_active_workflows
      (snd (create_generator (EventManager db_empty :: unit event_manager) ''W1'')))"
    by (simp add: get_active_workflows_def create_generator_def EventManager_def Let_def)
  have "''W2'' \<notin> set (get_active_workflows
      (snd (create_generator (EventManager db_empty :: unit event_manager) ''W1''))) \<longrightarrow>
    remove_generator (snd (create_generator (EventManager db_empty :: unit event_manager) ''W1''))
      ''W2'' = snd (create_generator (EventManager db_empty) ''W1'')"
    using active_workflows_track_registry [where wid = "''W2''" and db = db_empty
      and m = "snd (create_generator (EventManager db_empty :: unit event_manager) ''W1'')"]
    by blast
  with absent show ?thesis by blast
qed

text \<open>Claim C10 at a generator whose table holds a start time for the agent.\<close>

theorem start_time_consumed_by_every_emitter_witness:
  "(\<exists>g' db' w'. agent_started gen_rec db_empty [] 999.9 clk1 ''parser'' (PDict [])
        = Inr (g', db', w') \<and> start_times g' ''parser'' = None) \<and>
   (\<exists>g' db' w'. progress_update (\<lambda>x. ''50.0'')
        (gen_rec\<lparr>start_times := [''parser'' \<mapsto> 999.9]\<rparr>) db_empty [] clk1 ''parser'' 50 None
        = Inr (g', db', w') \<and> start_times g' ''parser'' = None)"
  using start_time_consumed_by_every_emitter [where g = gen_rec and db = db_empty
      and w = "[]" and ?t0.0 = "999.9" and clk = clk1 and A = "''parser''" and dat = "PDict []"]
    start_time_consumed_by_every_emitter [where fmt = "\<lambda>x. ''50.0''"
      and g = "gen_rec\<lparr>start_times := [''parser'' \<mapsto> 999.9]\<rparr>" and db = db_empty
      and w = "[]" and clk = clk1 and A = "''parser''" and progress = 50 and msg = None]
  by blast

section \<open>The queries of the event store\<close>

lemma events_of_rows_all2:
  "events_of_rows rs = Inr es \<Longrightarrow> list_all2 (\<lambda>r e. event_of_row r = Inr e) rs es"
  by (induction rs arbitrary: es) (auto split: sum.splits)

lemma all2_source:
  "list_all2 P xs ys \<Longrightarrow> y \<in> set ys \<Longrightarrow> \<exists>x\<in>set xs. P x y"
  by (induction rule: list_all2_induct) auto

lemma events_of_rows_total:
  "\<forall>r\<in>set rs. \<exists>e. event_of_row r = Inr e \<Longrightarrow> \<exists>es. events_of_rows rs = Inr es"
  by (induction rs) (auto split: sum.splits)

lemma event_of_row_fields:
  "event_of_row r = Inr e \<Longrightarrow>
     event_id e = r_event_id r \<and> workflow_id e = r_workflow_id r \<and>
     fromisoformat (r_timestamp r) = Inr (timestamp e) \<and> data e = json_loads (r_data r)"
  by (auto simp: event_of_row_def split: sum.splits)

lemma length_sql_limit: "0 \<le> n \<Longrightarrow> int (length (sql_limit n rs)) \<le> n"
  by (simp add: sql_limit_def)

lemma set_sql_limit: "set (sql_limit n rs) \<subseteq> set rs"
  by (auto simp: sql_limit_def dest: in_set_takeD)

lemma set_order_by [simp]: "set (order_by_timestamp_desc rs) = set rs"
  by (simp add: order_by_timestamp_desc_def)

lemma length_order_by [simp]: "length (order_by_timestamp_desc rs) = length rs"
  by (simp add: order_by_timestamp_desc_def)

lemma get_events_by_workflow_cases:
  "get_events_by_workflow db wid limit = [] \<or>
   (db_ok db \<and> sqlite_int_ok limit \<and>
    events_of_rows (sql_limit limit (order_by_timestamp_desc
        (filter (\<lambda>r. r_workflow_id r = wid) (db_rows db)))) =
      Inr (get_events_by_workflow db wid limit))"
  by (auto simp: get_events_by_workflow_def select_by_workflow_def split: sum.splits)

lemma get_recent_events_cases:
  "get_recent_events db limit = [] \<or>
   (db_ok db \<and> sqlite_int_ok limit \<and>
    events_of_rows (sql_limit limit (order_by_timestamp_desc (db_rows db))) =
      Inr (get_recent_events db limit))"
  by (auto simp: get_recent_events_def select_recent_def split: sum.splits)

text \<open>
  Claim C6, amended. For every store state, workflow id \<open>W\<close> and limit \<open>N \<ge> 0\<close>,
  \<open>get_events_by_workflow(W, N)\<close> returns at most \<open>N\<close> records; for every limit,
  every returned record has \<open>workflow_id\<close> equal to \<open>W\<close>.
\<close>

theorem limit_and_workflow_of_query:
  "(0 \<le> N \<longrightarrow> int (length (get_events_by_workflow db W N)) \<le> N) \<and>
   (\<forall>e \<in> set (get_events_by_workflow db W N). workflow_id e = W)"
proof (cases "get_events_by_workflow db W N = []")
  case True
  then show ?thesis by simp
next
  case False
  let ?rs = "sql_limit N (order_by_timestamp_desc
        (filter (\<lambda>r. r_workflow_id r = W) (db_rows db)))"
  have "events_of_rows ?rs = Inr (get_events_by_workflow db W N)"
    using False get_events_by_workflow_cases [of db W N] by blast
  then have all2: "list_all2 (\<lambda>r e. event_of_row r = Inr e) ?rs (get_events_by_workflow db W N)"
    by (rule events_of_rows_all2)
  have len: "length (get_events_by_workflow db W N) = length ?rs"
    using all2 by (simp add: list_all2_lengthD)
  have wf: "\<forall>e \<in> set (get_events_by_workflow db W N). workflow_id e = W"
  proof
    fix e assume "e \<in> set (get_events_by_workflow db W N)"
    then obtain r where r: "r \<in> set ?rs" and er: "event_of_row r = Inr e"
      using all2_source [OF all2] by blast
    have "r_workflow_id r = W"
      using r set_sql_limit [of N] by fastforce
    then show "workflow_id e = W"
      using event_of_row_fields [OF er] by simp
  qed
  show ?thesis using len wf by (simp add: length_sql_limit)
qed

text \<open>
  Claim C8. A query for a workflow id with no stored events returns the empty list,
  and it is the empty result of the SELECT, not a caught error, when the database
  answers. A read failure (the database cannot be reached, the statement raises, a
  row cannot be turned back into an event) yields the empty list from both queries.
\<close>

theorem empty_result_for_unknown_workflow_and_read_failure:
  "((\<forall>r \<in> set (db_rows db). r_workflow_id r \<noteq> W) \<longrightarrow> get_events_by_workflow db W N = []) \<and>
   ((\<forall>r \<in> set (db_rows db). r_workflow_id r \<noteq> W) \<and> db_ok db \<and> sqlite_int_ok N \<longrightarrow>
      select_by_workflow db W N = Inr []) \<and>
   (\<not> db_ok db \<longrightarrow> select_by_workflow db W N = Inl OperationalError \<and>
      select_recent db N = Inl OperationalError) \<and>
   (\<forall>x. select_by_workflow db W N = Inl x \<longrightarrow> get_events_by_workflow db W N = []) \<and>
   (\<forall>rs x. select_by_workflow db W N = Inr rs \<and> events_of_rows rs = Inl x \<longrightarrow>
      get_events_by_workflow db W N = []) \<and>
   (\<forall>x. select_recent db N = Inl x \<longrightarrow> get_recent_events db N = []) \<and>
   (\<forall>rs x. select_recent db N = Inr rs \<and> events_of_rows rs = Inl x \<longrightarrow>
      get_recent_events db N = [])"
proof -
  have none: "(\<forall>r \<in> set (db_rows db). r_workflow_id r \<noteq> W) \<Longrightarrow>
      filter (\<lambda>r. r_workflow_id r = W) (db_rows db) = []"
    by (simp add: filter_empty_conv)
  have 1: "(\<forall>r \<in> set (db_rows db). r_workflow_id r \<noteq> W) \<longrightarrow>
      get_events_by_workflow db W N = []"
    using none
    by (auto simp: get_events_by_workflow_def select_by_workflow_def sql_limit_def
        order_by_timestamp_desc_def split: sum.splits)
  have 2: "(\<forall>r \<in> set (db_rows db). r_workflow_id r \<noteq> W) \<and> db_ok db \<and> sqlite_int_ok N \<longrightarrow>
      select_by_workflow db W N = Inr []"
    using none
    by (auto simp: select_by_workflow_def sql_limit_def order_by_timestamp_desc_def)
  have 3: "\<not> db_ok db \<longrightarrow> select_by_workflow db W N = Inl OperationalError \<and>
      select_recent db N = Inl OperationalError"
    by (simp add: select_by_workflow_def select_recent_def)
  have 4: "\<forall>x. select_by_workflow db W N = Inl x \<longrightarrow> get_events_by_workflow db W N = []"
    by (simp add: get_events_by_workflow_def)
  have 5: "\<forall>rs x. select_by_workflow db W N = Inr rs \<and> events_of_rows rs = Inl x \<longrightarrow>
      get_events_by_workflow db W N = []"
    by (simp add: get_events_by_workflow_def)
  have 6: "\<forall>x. select_recent db N = Inl x \<longrightarrow> get_recent_events db N = []"
    by (simp add: get_recent_events_def)
  have 7: "\<forall>rs x. select_recent db N = Inr rs \<and> events_of_rows rs = Inl x \<longrightarrow>
      get_recent_events db N = []"
    by (simp add: get_recent_events_def)
  show ?thesis using 1 2 3 4 5 6 7 by blast
qed

lemma update_absent: "k \<notin> fst ` set al \<Longrightarrow> AList.update k v al = al @ [(k, v)]"
  by (induction al) auto

lemma foldl_update_distinct:
  "distinct (map fst kvs) \<Longrightarrow> fst ` set acc \<inter> fst ` set kvs = {} \<Longrightarrow>
   foldl (\<lambda>d kv. AList.update (fst kv) (snd kv) d) acc kvs = acc @ kvs"
proof (induction kvs arbitrary: acc)
  case Nil
  then show ?case by simp
next
  case (Cons kv kvs)
  have a: "fst kv \<notin> fst ` set acc" using Cons.prems(2) by auto
  have step: "AList.update (fst kv) (snd kv) acc = acc @ [kv]"
    using update_absent [OF a] by simp
  have d: "distinct (map fst kvs)" using Cons.prems(1) by simp
  have disj: "fst ` set (acc @ [kv]) \<inter> fst ` set kvs = {}"
    using Cons.prems by auto
  show ?case using Cons.IH [OF d disj] step by simp
qed

lemma dict_of_pairs_distinct: "distinct (map fst kvs) \<Longrightarrow> dict_of_pairs kvs = kvs"
  using foldl_update_distinct [of kvs "[]"] by (simp add: dict_of_pairs_def)

lemma json_roundtrip: "wf_pyval v \<Longrightarrow> json_native v \<Longrightarrow> json_loads (to_json v) = v"
proof (induction v)
  case (PList xs)
  then have "map (\<lambda>x. json_loads (to_json x)) xs = xs"
    by (intro map_idI) (auto simp: list_all_iff)
  then show ?case by (simp add: comp_def)
next
  case (PDict kvs)
  have d: "distinct (map fst kvs)" using PDict.prems(1) by simp
  have vals: "map (\<lambda>kv. (fst kv, json_loads (to_json (snd kv)))) kvs = kvs"
  proof (intro map_idI)
    fix kv assume kv: "kv \<in> set kvs"
    have "json_loads (to_json (snd kv)) = snd kv"
      using PDict.IH [of kv "snd kv"] PDict.prems kv
      by (cases kv) (fastforce simp: list_all_iff)
    then show "(fst kv, json_loads (to_json (snd kv))) = kv" by simp
  qed
  show ?case using d vals by (simp add: comp_def dict_of_pairs_distinct)
qed simp_all

lemma all2_target:
  "list_all2 P xs ys \<Longrightarrow> x \<in> set xs \<Longrightarrow> \<exists>y\<in>set ys. P x y"
  by (induction rule: list_all2_induct) auto

lemma all2_sorted_wrt:
  assumes "list_all2 R xs ys" and "sorted_wrt P xs"
    and "\<And>x x' y y'. R x y \<Longrightarrow> R x' y' \<Longrightarrow> P x x' \<Longrightarrow> Q y y'"
  shows "sorted_wrt Q ys"
  using assms(1,2)
proof (induction rule: list_all2_induct)
  case Nil
  then show ?case by simp
next
  case (Cons x xs y ys)
  have "\<forall>y'\<in>set ys. Q y y'"
  proof
    fix y' assume "y' \<in> set ys"
    then obtain x' where "x' \<in> set xs" "R x' y'"
      using all2_source [OF Cons.hyps(2)] by blast
    then show "Q y y'" using Cons.prems Cons.hyps(1) assms(3) by auto
  qed
  then show ?case using Cons by simp
qed

lemma insert_params_fields:
  "insert_params e = Inr r \<Longrightarrow>
     r_event_id r = event_id e \<and> r_workflow_id r = workflow_id e \<and>
     r_timestamp r = isoformat (timestamp e) \<and> r_data r = to_json (data e)"
  by (auto simp: insert_params_def json_dumps_def split: sum.splits if_splits)

lemma store_event_rows:
  "store_event db e = Inr db' \<Longrightarrow>
     \<exists>r. insert_params e = Inr r \<and> db_rows db' = db_rows db @ [r] \<and> db_ok db' = db_ok db"
  by (auto simp: store_event_def split: sum.splits if_splits)

lemma reachable_canonical:
  "reachable db \<Longrightarrow> \<forall>r\<in>set (db_rows db). canonical_timestamp r"
proof (induction rule: reachable.induct)
  case (reachable_new ok)
  then show ?case by simp
next
  case (reachable_store db e db')
  obtain r where r: "insert_params e = Inr r" and rows: "db_rows db' = db_rows db @ [r]"
    using store_event_rows [OF reachable_store.hyps(3)] by blast
  have "canonical_timestamp r"
    using insert_params_fields [OF r] reachable_store.hyps(2)
    by (auto simp: canonical_timestamp_def)
  then show ?case using reachable_store.IH rows by simp
next
  case (reachable_outage db ok)
  then show ?case by simp
qed

lemma canonical_decodes:
  assumes "canonical_timestamp r"
  shows "\<exists>e. event_of_row r = Inr e"
  using assms by (auto simp: canonical_timestamp_def event_of_row_def fromisoformat_isoformat)

lemma decoded_timestamp:
  assumes "canonical_timestamp r" and "event_of_row r = Inr e"
  shows "valid_datetime (timestamp e) \<and> isoformat (timestamp e) = r_timestamp r"
  using assms event_of_row_fields [OF assms(2)]
  by (auto simp: canonical_timestamp_def fromisoformat_isoformat)

lemma rows_desc_sorted:
  "sorted_wrt (\<lambda>r r'. r_timestamp r' \<le> r_timestamp r) (order_by_timestamp_desc rs)"
proof -
  have "sorted_wrt (\<lambda>r r'. r_timestamp r \<le> r_timestamp r') (sort_key r_timestamp rs)"
    using sorted_sort_key [of r_timestamp rs] by (simp add: sorted_wrt_map)
  then show ?thesis
    by (simp add: order_by_timestamp_desc_def sorted_wrt_rev)
qed

lemma sql_limit_sorted: "sorted_wrt P rs \<Longrightarrow> sorted_wrt P (sql_limit n rs)"
  by (simp add: sql_limit_def sorted_wrt_take)

lemma decoded_rows_sorted:
  assumes canon: "\<forall>r\<in>set rs. canonical_timestamp r"
    and sorted: "sorted_wrt (\<lambda>r r'. r_timestamp r' \<le> r_timestamp r) rs"
    and dec: "events_of_rows rs = Inr es"
  shows "sorted_wrt (\<lambda>a b. dt_le (timestamp b) (timestamp a)) es"
proof -
  have all2: "list_all2 (\<lambda>r e. r \<in> set rs \<and> event_of_row r = Inr e) rs es"
    using events_of_rows_all2 [OF dec]
    by (auto simp: list_all2_conv_all_nth)
  show ?thesis
  proof (rule all2_sorted_wrt [OF all2 sorted])
    fix x x' y y'
    assume x: "x \<in> set rs \<and> event_of_row x = Inr y"
      and x': "x' \<in> set rs \<and> event_of_row x' = Inr y'"
      and le: "r_timestamp x' \<le> r_timestamp x"
    have y: "valid_datetime (timestamp y) \<and> isoformat (timestamp y) = r_timestamp x"
      using decoded_timestamp x canon by blast
    have y': "valid_datetime (timestamp y') \<and> isoformat (timestamp y') = r_timestamp x'"
      using decoded_timestamp x' canon by blast
    show "dt_le (timestamp y') (timestamp y)"
      using isoformat_le [of "timestamp y'" "timestamp y"] y y' le by simp
  qed
qed

text \<open>
  Claim C4. For every store state that \<open>store_event\<close> calls produce and every limit,
  both queries return their events with timestamps in non-increasing order.
\<close>

theorem queries_return_newest_first:
  assumes "reachable db"
  shows "sorted_wrt (\<lambda>a b. dt_le (timestamp b) (timestamp a)) (get_events_by_workflow db W N) \<and>
         sorted_wrt (\<lambda>a b. dt_le (timestamp b) (timestamp a)) (get_recent_events db N)"
proof -
  note canon = reachable_canonical [OF assms]
  have 1: "sorted_wrt (\<lambda>a b. dt_le (timestamp b) (timestamp a)) (get_events_by_workflow db W N)"
  proof (cases "get_events_by_workflow db W N = []")
    case True
    then show ?thesis by simp
  next
    case False
    let ?rs = "sql_limit N (order_by_timestamp_desc
        (filter (\<lambda>r. r_workflow_id r = W) (db_rows db)))"
    have dec: "events_of_rows ?rs = Inr (get_events_by_workflow db W N)"
      using False get_events_by_workflow_cases [of db W N] by blast
    have c: "\<forall>r\<in>set ?rs. canonical_timestamp r"
      using canon set_sql_limit [of N "order_by_timestamp_desc
        (filter (\<lambda>r. r_workflow_id r = W) (db_rows db))"] by auto
    show ?thesis
      by (rule decoded_rows_sorted [OF c sql_limit_sorted [OF rows_desc_sorted] dec])
  qed
  have 2: "sorted_wrt (\<lambda>a b. dt_le (timestamp b) (timestamp a)) (get_recent_events db N)"
  proof (cases "get_recent_events db N = []")
    case True
    then show ?thesis by simp
  next
    case False
    let ?rs = "sql_limit N (order_by_timestamp_desc (db_rows db))"
    have dec: "events_of_rows ?rs = Inr (get_recent_events db N)"
      using False get_recent_events_cases [of db N] by blast
    have c: "\<forall>r\<in>set ?rs. canonical_timestamp r"
      using canon set_sql_limit [of N "order_by_timestamp_desc (db_rows db)"] by auto
    show ?thesis
      by (rule decoded_rows_sorted [OF c sql_limit_sorted [OF rows_desc_sorted] dec])
  qed
  show ?thesis using 1 2 by blast
qed

lemma sql_limit_all:
  "n < 0 \<or> int (length rs) \<le> n \<Longrightarrow> sql_limit n rs = rs"
  by (auto simp: sql_limit_def)

text \<open>
  Claim C5. An event whose \<open>data\<close> is a JSON-native Python value (nested dictionaries
  and lists of strings, numbers, booleans and \<open>None\<close>), once appended with
  \<open>store_event\<close>, is returned by \<open>get_events_by_workflow\<close> for its workflow, under any
  limit that does not cut it off, with a \<open>data\<close> equal to the one stored.
\<close>

theorem stored_data_reads_back_equal:
  assumes "reachable db" and "valid_datetime (timestamp e)"
    and "wf_pyval (data e)" and "json_native (data e)"
    and "store_event db e = Inr db'"
    and "sqlite_int_ok N"
    and "N < 0 \<or>
         int (length (filter (\<lambda>r. r_workflow_id r = workflow_id e) (db_rows db'))) \<le> N"
  shows "\<exists>e' \<in> set (get_events_by_workflow db' (workflow_id e) N).
           event_id e' = event_id e \<and> data e' = data e"
proof -
  obtain r where r: "insert_params e = Inr r" and rows: "db_rows db' = db_rows db @ [r]"
    and ok': "db_ok db' = db_ok db"
    using store_event_rows [OF assms(5)] by blast
  note rf = insert_params_fields [OF r]
  have ok: "db_ok db'"
    using assms(5) ok' by (auto simp: store_event_def split: if_splits)
  have reach': "reachable db'"
    by (rule reachable_store [OF assms(1,2,5)])
  let ?sel = "filter (\<lambda>r. r_workflow_id r = workflow_id e) (db_rows db')"
  let ?rs = "sql_limit N (order_by_timestamp_desc ?sel)"
  have rs_eq: "?rs = order_by_timestamp_desc ?sel"
    using assms(7) by (intro sql_limit_all) simp
  have r_in: "r \<in> set ?rs"
    unfolding rs_eq using rows rf by simp
  have canon: "\<forall>x\<in>set ?rs. canonical_timestamp x"
    unfolding rs_eq using reachable_canonical [OF reach'] by simp
  then obtain es where es: "events_of_rows ?rs = Inr es"
    using events_of_rows_total [of ?rs] canonical_decodes by blast
  have res: "get_events_by_workflow db' (workflow_id e) N = es"
    using es ok assms(6) by (simp add: get_events_by_workflow_def select_by_workflow_def)
  obtain e' where e': "e' \<in> set es" and dec: "event_of_row r = Inr e'"
    using all2_target [OF events_of_rows_all2 [OF es] r_in] by blast
  have "event_id e' = event_id e"
    using event_of_row_fields [OF dec] rf by simp
  moreover have "data e' = data e"
    using event_of_row_fields [OF dec] rf json_roundtrip [OF assms(3,4)] by simp
  ultimately show ?thesis using e' res by blast
qed

section \<open>The example store\<close>

lemma valid_ts: "valid_datetime ts1" "valid_datetime ts2"
  by (simp_all add: ts1_def ts2_def valid_datetime_def days_in_month_def is_leap_def)

lemma ts_order: "dt_le ts1 ts2" "\<not> dt_le ts2 ts1" "dt_le ts1 ts1" "dt_le ts2 ts2"
  by (simp_all add: ts1_def ts2_def dt_le_def dt_fields_def)

lemma iso_order:
  "isoformat ts1 \<le> isoformat ts2" "\<not> isoformat ts2 \<le> isoformat ts1"
  "isoformat ts1 \<le> isoformat ts1" "isoformat ts2 \<le> isoformat ts2"
  using ts_order by (simp_all add: isoformat_le valid_ts)

lemma iso_parse:
  "fromisoformat (isoformat ts1) = Inr ts1" "fromisoformat (isoformat ts2) = Inr ts2"
  by (simp_all add: fromisoformat_isoformat valid_ts)

lemma insert_examples:
  "insert_params ev_a = Inr row_a" "insert_params ev_b = Inr row_b"
  "insert_params ev_c = Inr row_c"
  by (simp_all add: insert_params_def json_dumps_def ev_a_def ev_b_def ev_c_def
      row_a_def row_b_def row_c_def)

lemma row_ids: "r_event_id row_a = ''e1''" "r_event_id row_b = ''e2''" "r_event_id row_c = ''e3''"
  "r_workflow_id row_a = ''W1''" "r_workflow_id row_b = ''W1''" "r_workflow_id row_c = ''W2''"
  "r_timestamp row_a = isoformat ts1" "r_timestamp row_b = isoformat ts2"
  "r_timestamp row_c = isoformat ts1"
  by (simp_all add: row_a_def row_b_def row_c_def)

lemma store_examples:
  "store_event db_empty ev_a = Inr db_a" "store_event db_a ev_b = Inr db_ab"
  "store_event db_ab ev_c = Inr db_abc"
  by (simp_all add: store_event_def insert_examples row_ids db_empty_def db_a_def db_ab_def
      db_abc_def)

lemma decode_examples:
  "event_of_row row_a = Inr ev_a" "event_of_row row_b = Inr ev_b"
  "event_of_row row_c = Inr ev_c"
  by (simp_all add: event_of_row_def row_ids iso_parse)
    (simp_all add: row_a_def row_b_def row_c_def ev_a_def ev_b_def ev_c_def dict_of_pairs_def)

lemma reachable_examples: "reachable db_a" "reachable db_ab" "reachable db_abc"
proof -
  have 0: "reachable db_empty"
    unfolding db_empty_def by (rule reachable_new)
  have tsa: "valid_datetime (timestamp ev_a)" "valid_datetime (timestamp ev_b)"
    "valid_datetime (timestamp ev_c)"
    by (simp_all add: ev_a_def ev_b_def ev_c_def valid_ts)
  show a: "reachable db_a"
    by (rule reachable_store [OF 0 tsa(1) store_examples(1)])
  show b: "reachable db_ab"
    by (rule reachable_store [OF a tsa(2) store_examples(2)])
  show "reachable db_abc"
    by (rule reachable_store [OF b tsa(3) store_examples(3)])
qed

lemma order_examples:
  "order_by_timestamp_desc [row_a, row_b] = [row_b, row_a]"
  "order_by_timestamp_desc [row_a, row_b, row_c] = [row_b, row_c, row_a]"
  by (simp_all add: order_by_timestamp_desc_def row_ids iso_order)

lemma query_examples:
  "get_events_by_workflow db_ab ''W1'' (- 1) = [ev_b, ev_a]"
  "get_events_by_workflow db_ab ''W1'' 1 = [ev_b]"
  "get_events_by_workflow db_abc ''W1'' 10 = [ev_b, ev_a]"
  "get_recent_events db_abc 10 = [ev_b, ev_c, ev_a]"
  "get_events_by_workflow db_ab ''W1'' 100 = [ev_b, ev_a]"
  by (simp_all add: get_events_by_workflow_def get_recent_events_def select_by_workflow_def
      select_recent_def sqlite_int_ok_def sql_limit_def db_ab_def db_abc_def row_ids
      order_examples decode_examples)

text \<open>
  Claim C6 says that at most \<open>N\<close> records are returned for every limit \<open>N\<close>. With two
  events of workflow \<open>W1\<close> stored, the limit \<open>-1\<close> returns both.
\<close>

theorem negative_limit_is_unbounded:
  "store_event db_empty ev_a = Inr db_a \<and> store_event db_a ev_b = Inr db_ab \<and>
   get_events_by_workflow db_ab ''W1'' (- 1) = [ev_b, ev_a] \<and>
   \<not> int (length (get_events_by_workflow db_ab ''W1'' (- 1))) \<le> - 1"
  by (simp add: store_examples query_examples)

text \<open>Claim C6, amended, at limit 1 on the store that holds two events of \<open>W1\<close>.\<close>

theorem limit_and_workflow_of_query_witness:
  "(0::int) \<le> 1 \<and> get_events_by_workflow db_ab ''W1'' 1 = [ev_b] \<and>
   int (length (get_events_by_workflow db_ab ''W1'' 1)) \<le> 1 \<and>
   map workflow_id (get_events_by_workflow db_ab ''W1'' 1) = [''W1'']"
  using limit_and_workflow_of_query [of 1 db_ab "''W1''"]
  by (simp add: query_examples ev_b_def)

text \<open>Claim C4 on the store that holds the three example events.\<close>

theorem queries_return_newest_first_witness:
  "reachable db_abc \<and>
   get_recent_events db_abc 10 = [ev_b, ev_c, ev_a] \<and>
   get_events_by_workflow db_abc ''W1'' 10 = [ev_b, ev_a] \<and>
   sorted_wrt (\<lambda>a b. dt_le (timestamp b) (timestamp a)) (get_events_by_workflow db_abc ''W1'' 10) \<and>
   sorted_wrt (\<lambda>a b. dt_le (timestamp b) (timestamp a)) (get_recent_events db_abc 10)"
  using queries_return_newest_first [OF reachable_examples(3), of "''W1''" 10]
  by (simp add: reachable_examples query_examples)

text \<open>Claim C5 for the second example event, whose payload nests lists and a dictionary.\<close>

theorem stored_data_reads_back_equal_witness:
  "reachable db_a \<and> valid_datetime (timestamp ev_b) \<and> wf_pyval (data ev_b) \<and>
   json_native (data ev_b) \<and> store_event db_a ev_b = Inr db_ab \<and> sqlite_int_ok 100 \<and>
   int (length (filter (\<lambda>r. r_workflow_id r = workflow_id ev_b) (db_rows db_ab))) \<le> 100 \<and>
   get_events_by_workflow db_ab (workflow_id ev_b) 100 = [ev_b, ev_a] \<and>
   event_id (hd (get_events_by_workflow db_ab (workflow_id ev_b) 100)) = event_id ev_b \<and>
   data (hd (get_events_by_workflow db_ab (workflow_id ev_b) 100)) = data ev_b"
proof -
  have h: "valid_datetime (timestamp ev_b)" "wf_pyval (data ev_b)" "json_native (data ev_b)"
    by (simp_all add: ev_b_def valid_ts)
  have n: "sqlite_int_ok 100"
    by (simp add: sqlite_int_ok_def)
  have len: "(100::int) < 0 \<or>
      int (length (filter (\<lambda>r. r_workflow_id r = workflow_id ev_b) (db_rows db_ab))) \<le> 100"
    by (simp add: db_ab_def)
  show ?thesis
    using stored_data_reads_back_equal
      [OF reachable_examples(1) h(1) h(2) h(3) store_examples(2) n len]
      reachable_examples(1) h n len store_examples(2) query_examples(5)
    by (simp add: ev_b_def)
qed

text \<open>
  Claim C8 for the unknown workflow \<open>W9\<close> and for the same store when it cannot be
  reached.
\<close>

theorem empty_result_for_unknown_workflow_and_read_failure_witness:
  "''W9'' \<notin> set (map r_workflow_id (db_rows db_ab)) \<and>
   get_events_by_workflow db_ab ''W9'' 100 = [] \<and>
   select_by_workflow db_ab ''W9'' 100 = Inr [] \<and>
   \<not> db_ok (db_ab\<lparr>db_ok := False\<rparr>) \<and>
   get_events_by_workflow (db_ab\<lparr>db_ok := False\<rparr>) ''W1'' 100 = [] \<and>
   get_recent_events (db_ab\<lparr>db_ok := False\<rparr>) 100 = []"
proof -
  have a: "\<forall>r \<in> set (db_rows db_ab). r_workflow_id r \<noteq> ''W9''"
    by (simp add: db_ab_def row_ids)
  have b: "db_ok db_ab" "sqlite_int_ok 100" "\<not> db_ok (db_ab\<lparr>db_ok := False\<rparr>)"
    by (simp_all add: db_ab_def sqlite_int_ok_def)
  have c: "''W9'' \<notin> set (map r_workflow_id (db_rows db_ab))"
    by (simp add: db_ab_def row_ids)
  show ?thesis
    using empty_result_for_unknown_workflow_and_read_failure [of db_ab "''W9''" 100]
      empty_result_for_unknown_workflow_and_read_failure
        [of "db_ab\<lparr>db_ok := False\<rparr>" "''W1''" 100] a b c
    by simp
qed

section \<open>The broadcast transport\<close>

lemma drain_yielded: "yielded (drain xs s) = yielded s"
  by (induction xs arbitrary: s) (simp_all add: send_to_subscribers_def)

lemma drain_logged: "logged (drain xs s) = logged s @ xs"
  by (induction xs arbitrary: s) (simp_all add: send_to_subscribers_def)

lemma drain_subscribers: "subscribers (drain xs s) = subscribers s"
  by (induction xs arbitrary: s) (simp_all add: send_to_subscribers_def)

lemma drain_queue: "event_queue (drain xs s) = event_queue s"
  by (induction xs arbitrary: s) (simp_all add: send_to_subscribers_def)

lemma sse_do_no_event: "no_event_yielded s \<Longrightarrow> no_event_yielded (sse_do s a)"
  by (cases a)
    (auto simp: no_event_yielded_def stream_connect_def stream_heartbeat_def stream_close_def
      broadcast_event_def broadcast_loop_pass_def drain_yielded is_workflow_event_msg_def)

lemma foldl_no_event: "no_event_yielded s \<Longrightarrow> no_event_yielded (foldl sse_do s steps)"
  by (induction steps arbitrary: s) (simp_all add: sse_do_no_event)

lemma received_events_empty: "received_events (sse_run steps) c = []"
proof -
  have "no_event_yielded SSEServer"
    by (simp add: no_event_yielded_def SSEServer_def)
  then have "no_event_yielded (sse_run steps)"
    unfolding sse_run_def by (rule foldl_no_event)
  then show ?thesis
    by (auto simp: received_events_def no_event_yielded_def filter_empty_conv)
qed

lemmas sse_defs = sse_run_def SSEServer_def stream_connect_def stream_heartbeat_def
  stream_close_def broadcast_event_def broadcast_loop_pass_def send_to_subscribers_def
  received_events_def is_workflow_event_msg_def

text \<open>
  Claim C3 says that both connected listeners receive the broadcast event, and only
  listener 2 when listener 1 has disconnected. Evaluated on the code: the envelope
  is queued, the broadcast loop hands it to \<open>send_to_subscribers\<close>, which only logs
  it; the streams of both clients yield their connection message and heartbeats and
  no message that carries a workflow event, with or without the disconnect.
\<close>

theorem broadcast_reaches_no_listener:
  "subscribers (sse_run [Connect ''client_1'' ts1, Connect ''client_2'' ts1,
      Broadcast ev_a ts2, LoopPass]) = {''client_1'', ''client_2''} \<and>
   event_queue (sse_run [Connect ''client_1'' ts1, Connect ''client_2'' ts1,
      Broadcast ev_a ts2]) =
     [PDict [(''type'', PStr ''workflow_event''), (''event'', to_dict ev_a),
             (''timestamp'', PStr (isoformat ts2))]] \<and>
   logged (sse_run [Connect ''client_1'' ts1, Connect ''client_2'' ts1,
      Broadcast ev_a ts2, LoopPass]) =
     [PDict [(''type'', PStr ''workflow_event''), (''event'', to_dict ev_a),
             (''timestamp'', PStr (isoformat ts2))]] \<and>
   map fst (yielded (sse_run [Connect ''client_1'' ts1, Connect ''client_2'' ts1,
      Broadcast ev_a ts2, LoopPass, Heartbeat ''client_1'' ts2, Heartbeat ''client_2'' ts2])) =
     [''client_1'', ''client_2'', ''client_1'', ''client_2''] \<and>
   received_events (sse_run [Connect ''client_1'' ts1, Connect ''client_2'' ts1,
      Broadcast ev_a ts2, LoopPass, Heartbeat ''client_1'' ts2, Heartbeat ''client_2'' ts2])
      ''client_1'' = [] \<and>
   received_events (sse_run [Connect ''client_1'' ts1, Connect ''client_2'' ts1,
      Broadcast ev_a ts2, LoopPass, Heartbeat ''client_1'' ts2, Heartbeat ''client_2'' ts2])
      ''client_2'' = [] \<and>
   received_events (sse_run [Connect ''client_1'' ts1, Connect ''client_2'' ts1,
      Close ''client_1'', Broadcast ev_a ts2, LoopPass, Heartbeat ''client_2'' ts2])
      ''client_2'' = []"
  by (simp add: sse_defs insert_commute)

end
